theory Spec2Isabelle
  imports Complex_Main
begin

section \<open>Numbers and geometry helpers of the flyover animation\<close>

text \<open>
  The animation class \<open>FlyoverAnimation\<close> computes with JavaScript numbers. They are
  modelled as mathematical reals: rounding, NaN, the infinities and signed zeros are
  outside the model, except where a result type names them. Where the source reads an array out of range (the value
  \<open>undefined\<close>) or dereferences \<open>null\<close>/\<open>undefined\<close> (a \<open>TypeError\<close>), the model
  writes the case out.
\<close>

datatype js_error = TypeError

record point =
  lat :: real
  lon :: real
  ele :: real

text \<open>\<open>Math.trunc\<close>, and the remainder operator \<open>a % b\<close> (sign of the dividend).\<close>

definition js_trunc :: "real \<Rightarrow> int" where
  "js_trunc x = (if 0 \<le> x then \<lfloor>x\<rfloor> else \<lceil>x\<rceil>)"

definition js_mod :: "real \<Rightarrow> real \<Rightarrow> real" where
  "js_mod a b = a - b * of_int (js_trunc (a / b))"

text \<open>\<open>Math.atan2(y, x)\<close> on the reals.\<close>

definition atan2 :: "real \<Rightarrow> real \<Rightarrow> real" where
  "atan2 y x =
     (if 0 < x then arctan (y / x)
      else if x < 0 then (if 0 \<le> y then arctan (y / x) + pi else arctan (y / x) - pi)
      else if 0 < y then pi / 2
      else if y < 0 then - (pi / 2)
      else 0)"

text \<open>
  Fields that the constructor sets and that no code of the repository assigns again.
\<close>

definition minTerrainClearance :: real where
  "minTerrainClearance = 80"

definition cameraDistance :: real where
  "cameraDistance = 150"

definition terrainExaggeration :: real where
  "terrainExaggeration = 1.5"

definition altitudeSmoothingFactor :: real where
  "altitudeSmoothingFactor = 0.05"

definition positionSmoothingFactor :: real where
  "positionSmoothingFactor = 0.15"

section \<open>Controller state and its environment\<close>

record state =
  isPlaying :: bool
  isPaused :: bool
  animationFrame :: "nat option"
  lastTimestamp :: real
  progress :: real
  mode :: string
  speed :: real
  cameraAltitude :: real
  cameraPitch :: real
  cumulativeDistances :: "real list option"
  totalDistance :: real
  distanceDataInitialized :: bool
  lastCameraAltitude :: "real option"
  lastBearing :: "real option"
  bearingHistory :: "real list"
  lastSmoothedPosition :: "point option"

text \<open>The state the constructor builds.\<close>

definition constructor :: state where
  "constructor =
     \<lparr> isPlaying = False, isPaused = False, animationFrame = None, lastTimestamp = 0,
       progress = 0, mode = ''follow'', speed = 1, cameraAltitude = 100, cameraPitch = 60,
       cumulativeDistances = None, totalDistance = 0, distanceDataInitialized = False,
       lastCameraAltitude = None, lastBearing = None, bearingHistory = [],
       lastSmoothedPosition = None \<rparr>"

text \<open>
  What the map engine answers to \<open>map.queryTerrainElevation([lon, lat])\<close>: a number,
  \<open>null\<close>, or an exception.
\<close>

datatype query_result = QElevation real | QNull | QThrows

record map_surface =
  terrainQuery :: "real \<Rightarrow> real \<Rightarrow> query_result"
  freeCameraApi :: bool

text \<open>
  The collaborators of one call: the track (\<open>this.map.getTrackPoints()\<close>, never
  \<open>null\<close>), the map engine (\<open>this.map.map\<close>, \<open>null\<close> before the map is created), the
  callbacks the application has assigned, and the handle \<open>requestAnimationFrame\<close>
  returns. A callback may call back into the controller, so it is a state transformer.
\<close>

record env =
  trackPoints :: "point list"
  mapObj :: "map_surface option"
  onProgress :: "(real \<Rightarrow> state \<Rightarrow> state) option"
  onFrame :: "(real \<Rightarrow> state \<Rightarrow> state) option"
  onComplete :: "(state \<Rightarrow> state) option"
  nextFrameHandle :: nat

section \<open>DistanceIndex\<close>

definition calculateDistance :: "point \<Rightarrow> point \<Rightarrow> real" where
  "calculateDistance point1 point2 =
     (let R = 6371000;
          lat1 = lat point1 * pi / 180;
          lat2 = lat point2 * pi / 180;
          dLat = lat2 - lat1;
          dLon = (lon point2 - lon point1) * pi / 180;
          a = sin (dLat / 2) * sin (dLat / 2) +
              cos lat1 * cos lat2 * sin (dLon / 2) * sin (dLon / 2);
          c = 2 * atan2 (sqrt a) (sqrt (1 - a))
      in R * c)"

text \<open>The \<open>for\<close> loop of \<open>initializeDistanceData\<close>, from index \<open>i\<close> on.\<close>

function distanceLoop :: "point list \<Rightarrow> nat \<Rightarrow> real \<Rightarrow> real list \<Rightarrow> real \<times> real list" where
  "distanceLoop points i tot ds =
     (if i < length points
      then (let dist = calculateDistance (points ! (i - 1)) (points ! i);
                tot' = tot + dist
            in distanceLoop points (i + 1) tot' (ds @ [tot']))
      else (tot, ds))"
  by pat_completeness auto
termination
  by (relation "measure (\<lambda>(points, i, tot, ds). length points - i)") auto

definition initializeDistanceData :: "env \<Rightarrow> state \<Rightarrow> state" where
  "initializeDistanceData e s =
     (let points = trackPoints e
      in if length points < 2 then s\<lparr>distanceDataInitialized := False\<rparr>
         else (case distanceLoop points 1 0 [0] of
                 (tot, ds) \<Rightarrow>
                   s\<lparr>cumulativeDistances := Some ds, totalDistance := tot,
                     distanceDataInitialized := True\<rparr>))"

text \<open>
  The \<open>while\<close> loop of \<open>findSegmentAtDistance\<close>. The source tests \<open>left < right - 1\<close>
  with \<open>right = distances.length - 1\<close>; on an empty array \<open>right\<close> is \<open>-1\<close> there and
  \<open>0\<close> here, and the loop is not entered in either case.
\<close>

function segmentLoop :: "real list \<Rightarrow> real \<Rightarrow> nat \<Rightarrow> nat \<Rightarrow> nat" where
  "segmentLoop distances targetDistance left right =
     (if left + 1 < right
      then (let mid = (left + right) div 2
            in if distances ! mid \<le> targetDistance
               then segmentLoop distances targetDistance mid right
               else segmentLoop distances targetDistance left mid)
      else left)"
  by pat_completeness auto
termination
  by (relation "measure (\<lambda>(distances, targetDistance, left, right). right - left)") auto

definition findSegmentAtDistance :: "state \<Rightarrow> real \<Rightarrow> js_error + nat" where
  "findSegmentAtDistance s targetDistance =
     (case cumulativeDistances s of
        None \<Rightarrow> Inl TypeError
      | Some distances \<Rightarrow> Inr (segmentLoop distances targetDistance 0 (length distances - 1)))"

section \<open>Terrain queries\<close>

text \<open>\<open>fallbackElevation || 0\<close>: \<open>null\<close> and \<open>0\<close> give \<open>0\<close>.\<close>

definition orZero :: "real option \<Rightarrow> real" where
  "orZero fallbackElevation = (case fallbackElevation of None \<Rightarrow> 0 | Some v \<Rightarrow> v)"

definition queryTerrainElevation :: "env \<Rightarrow> real \<Rightarrow> real \<Rightarrow> real option \<Rightarrow> real" where
  "queryTerrainElevation e lon' lat' fallbackElevation =
     (case mapObj e of
        None \<Rightarrow> orZero fallbackElevation
      | Some m \<Rightarrow>
          (case terrainQuery m lon' lat' of
             QElevation elevation \<Rightarrow>
               if elevation > 0 then elevation * terrainExaggeration
               else orZero fallbackElevation
           | QNull \<Rightarrow> orZero fallbackElevation
           | QThrows \<Rightarrow> orZero fallbackElevation))"

text \<open>
  \<open>getTrackElevationNear\<close>: the loop keeps the first point at the least planar distance;
  \<open>minDist\<close> starts at \<open>Infinity\<close>, here \<open>None\<close>.
\<close>

fun nearestLoop :: "point list \<Rightarrow> real \<Rightarrow> real \<Rightarrow> real option \<Rightarrow> real \<Rightarrow> real" where
  "nearestLoop [] lon' lat' minDist nearestEle = nearestEle"
| "nearestLoop (p # ps) lon' lat' minDist nearestEle =
     (let dist = sqrt ((lon p - lon') ^ 2 + (lat p - lat') ^ 2)
      in if (case minDist of None \<Rightarrow> True | Some m \<Rightarrow> dist < m)
         then nearestLoop ps lon' lat' (Some dist) (ele p)
         else nearestLoop ps lon' lat' minDist nearestEle)"

definition getTrackElevationNear :: "env \<Rightarrow> real \<Rightarrow> real \<Rightarrow> real" where
  "getTrackElevationNear e lon' lat' =
     (let points = trackPoints e
      in if length points = 0 then 0 else nearestLoop points lon' lat' None 0)"

section \<open>Altitude smoothing\<close>

definition smoothAltitude :: "real \<Rightarrow> state \<Rightarrow> real \<times> state" where
  "smoothAltitude targetAltitude s =
     (case lastCameraAltitude s of
        None \<Rightarrow> (targetAltitude, s\<lparr>lastCameraAltitude := Some targetAltitude\<rparr>)
      | Some lastAlt \<Rightarrow>
          (let newAlt = (if targetAltitude > lastAlt then targetAltitude
                         else lastAlt + (targetAltitude - lastAlt) * altitudeSmoothingFactor)
           in (newAlt, s\<lparr>lastCameraAltitude := Some newAlt\<rparr>)))"

section \<open>Duration\<close>

text \<open>
  The duration is a quotient by \<open>160 * speed\<close>, and \<open>setSpeed\<close> accepts \<open>0\<close>: a positive
  distance divided by \<open>0\<close> is \<open>Infinity\<close> in the source, which the result type has.
\<close>

datatype js_number = Finite real | PositiveInfinity

definition getTotalDuration :: "env \<Rightarrow> state \<Rightarrow> js_number \<times> state" where
  "getTotalDuration e s =
     (let s1 = (if \<not> distanceDataInitialized s then initializeDistanceData e s else s);
          baseSpeedMps = 160;
          effectiveSpeed = baseSpeedMps * speed s1
      in (if totalDistance s1 > 0
          then (if effectiveSpeed = 0 then PositiveInfinity
                else Finite (totalDistance s1 / effectiveSpeed))
          else Finite 160, s1))"

section \<open>TrackSampler\<close>

definition calculateBearing :: "point \<Rightarrow> point \<Rightarrow> real" where
  "calculateBearing point1 point2 =
     (let lat1 = lat point1 * pi / 180;
          lat2 = lat point2 * pi / 180;
          dLon = (lon point2 - lon point1) * pi / 180;
          y = sin dLon * cos lat2;
          x = cos lat1 * sin lat2 - sin lat1 * cos lat2 * cos dLon;
          bearing = atan2 y x * 180 / pi
      in js_mod (bearing + 360) 360)"

text \<open>\<open>xs[i]\<close>: \<open>undefined\<close> (here \<open>None\<close>) out of range.\<close>

definition nthOpt :: "'a list \<Rightarrow> nat \<Rightarrow> 'a option" where
  "nthOpt xs i = (if i < length xs then Some (xs ! i) else None)"

text \<open>Reading \<open>.lat\<close> of \<open>undefined\<close> is a \<open>TypeError\<close>.\<close>

definition interpolate :: "point option \<Rightarrow> point option \<Rightarrow> real \<Rightarrow> js_error + point" where
  "interpolate point1 point2 t =
     (case point1 of
        None \<Rightarrow> Inl TypeError
      | Some p1 \<Rightarrow>
          (case point2 of
             None \<Rightarrow> Inl TypeError
           | Some p2 \<Rightarrow>
               Inr \<lparr> lat = lat p1 + (lat p2 - lat p1) * t,
                     lon = lon p1 + (lon p2 - lon p1) * t,
                     ele = ele p1 + (ele p2 - ele p1) * t \<rparr>))"

definition normalizeBearing :: "real \<Rightarrow> real" where
  "normalizeBearing bearing = js_mod (js_mod bearing 360 + 360) 360"

definition bearingDifference :: "real \<Rightarrow> real \<Rightarrow> real" where
  "bearingDifference b1 b2 =
     (let diff = normalizeBearing (b2 - b1)
      in if diff > 180 then diff - 360 else diff)"

text \<open>
  The interpolation factor inside segment \<open>segmentIndex\<close> (source lines 269 to 274, and
  again at 287, 324 and 335). A read of \<open>cumulativeDistances\<close> out of range is
  \<open>undefined\<close>, the segment length is then NaN, and \<open>NaN > 0\<close> is false.
\<close>

definition segmentFactor :: "real list \<Rightarrow> nat \<Rightarrow> real \<Rightarrow> real" where
  "segmentFactor distances segmentIndex targetDistance =
     (case nthOpt distances segmentIndex of
        None \<Rightarrow> 0
      | Some segmentStartDist \<Rightarrow>
          (case nthOpt distances (min (segmentIndex + 1) (length distances - 1)) of
             None \<Rightarrow> 0
           | Some segmentEndDist \<Rightarrow>
               (let segmentLength = segmentEndDist - segmentStartDist
                in if segmentLength > 0
                   then (targetDistance - segmentStartDist) / segmentLength else 0)))"

text \<open>
  The position at a distance along the track: find the segment, take the factor inside
  it, interpolate between \<open>points[index]\<close> and \<open>points[min(index + 1, length - 1)]\<close>.
  The source writes these statements out three times (lines 286 to 293, 323 to 330 and
  334 to 341) without testing the points for \<open>undefined\<close>.
\<close>

definition positionAtDistance :: "env \<Rightarrow> state \<Rightarrow> real \<Rightarrow> js_error + point" where
  "positionAtDistance e s distance =
     (case findSegmentAtDistance s distance of
        Inl err \<Rightarrow> Inl err
      | Inr segmentIndex \<Rightarrow>
          (case cumulativeDistances s of
             None \<Rightarrow> Inl TypeError
           | Some distances \<Rightarrow>
               (let points = trackPoints e;
                    t = segmentFactor distances segmentIndex distance
                in interpolate (nthOpt points segmentIndex)
                     (nthOpt points (min (segmentIndex + 1) (length points - 1))) t)))"

definition calculateMeanDirectionBearing :: "env \<Rightarrow> state \<Rightarrow> real \<Rightarrow> js_error + real" where
  "calculateMeanDirectionBearing e s currentDistance =
     (let speedFactor = max 1 (speed s);
          lookDistance = min 1200 (400 * sqrt speedFactor);
          pastDistance = max 0 (currentDistance - lookDistance)
      in case positionAtDistance e s pastDistance of
           Inl err \<Rightarrow> Inl err
         | Inr pastPos \<Rightarrow>
             (let futureDistance = min (totalDistance s) (currentDistance + lookDistance)
              in case positionAtDistance e s futureDistance of
                   Inl err \<Rightarrow> Inl err
                 | Inr futurePos \<Rightarrow> Inr (calculateBearing pastPos futurePos)))"

definition blendBearings :: "real \<Rightarrow> real \<Rightarrow> real \<Rightarrow> real" where
  "blendBearings bearing1 bearing2 weight1 =
     (let rad1 = bearing1 * pi / 180;
          rad2 = bearing2 * pi / 180;
          sinSum = sin rad1 * weight1 + sin rad2 * (1 - weight1);
          cosSum = cos rad1 * weight1 + cos rad2 * (1 - weight1);
          blendedRad = atan2 sinSum cosSum
      in normalizeBearing (blendedRad * 180 / pi))"

section \<open>SignalSmoothers\<close>

definition dynamicSmoothingFactor :: "real \<Rightarrow> real" where
  "dynamicSmoothingFactor speed' =
     (let speedFactor = max 1 speed' in max 0.015 (0.06 / sqrt speedFactor))"

definition dynamicHistorySize :: "real \<Rightarrow> nat" where
  "dynamicHistorySize speed' =
     (let speedFactor = max 1 speed' in nat (min 60 \<lfloor>20 * sqrt speedFactor\<rfloor>))"

text \<open>\<open>while (history.length > size) history.shift()\<close>\<close>

function shiftLoop :: "nat \<Rightarrow> real list \<Rightarrow> real list" where
  "shiftLoop size' history =
     (if length history > size' then shiftLoop size' (tl history) else history)"
  by pat_completeness auto
termination
  by (relation "measure (\<lambda>(size', history). length history)") auto

text \<open>
  Source lines 189 to 210: the weights \<open>(i + 1) / length\<close>, their sum, the weighted sums
  of sines and cosines, and the normalised angle of the mean vector.
\<close>

definition weightedCircularMean :: "real list \<Rightarrow> real" where
  "weightedCircularMean history =
     (let n = length history;
          weights = map (\<lambda>i. (real i + 1) / real n) [0..<n];
          weightSum = sum_list weights;
          sinSum = sum_list (map (\<lambda>i. sin (history ! i * pi / 180) * (weights ! i / weightSum)) [0..<n]);
          cosSum = sum_list (map (\<lambda>i. cos (history ! i * pi / 180) * (weights ! i / weightSum)) [0..<n]);
          avgBearing = atan2 sinSum cosSum * 180 / pi
      in normalizeBearing avgBearing)"

definition smoothBearing :: "real \<Rightarrow> state \<Rightarrow> real \<times> state" where
  "smoothBearing newBearing s =
     (case lastBearing s of
        None \<Rightarrow> (newBearing, s\<lparr>lastBearing := Some newBearing, bearingHistory := [newBearing]\<rparr>)
      | Some lastB \<Rightarrow>
          (let history = shiftLoop (dynamicHistorySize (speed s)) (bearingHistory s @ [newBearing]);
               normalizedAvg = weightedCircularMean history;
               diff = bearingDifference lastB normalizedAvg;
               newLast = normalizeBearing (lastB + diff * dynamicSmoothingFactor (speed s))
           in (newLast, s\<lparr>lastBearing := Some newLast, bearingHistory := history\<rparr>)))"

definition smoothPosition :: "point \<Rightarrow> state \<Rightarrow> point \<times> state" where
  "smoothPosition newPosition s =
     (case lastSmoothedPosition s of
        None \<Rightarrow> (newPosition, s\<lparr>lastSmoothedPosition := Some newPosition\<rparr>)
      | Some lastP \<Rightarrow>
          (let speedFactor = max 1 (speed s);
               dynamicFactor = max 0.04 (positionSmoothingFactor / sqrt speedFactor);
               smoothed = \<lparr> lat = lat lastP + (lat newPosition - lat lastP) * dynamicFactor,
                            lon = lon lastP + (lon newPosition - lon lastP) * dynamicFactor,
                            ele = ele lastP + (ele newPosition - ele lastP) * dynamicFactor \<rparr>
           in (smoothed, s\<lparr>lastSmoothedPosition := Some smoothed\<rparr>)))"

record trackPosition =
  position :: point
  rawPosition :: point
  bearing :: real
  rawBearing :: real
  index :: nat

text \<open>
  \<open>getPointAtProgress\<close> returns \<open>null\<close> (here \<open>Inr None\<close>), a track position, or throws;
  the state it leaves behind is returned in each case.
\<close>

definition getPointAtProgress ::
  "env \<Rightarrow> real \<Rightarrow> state \<Rightarrow> (js_error + trackPosition option) \<times> state" where
  "getPointAtProgress e progress' s =
     (let points = trackPoints e
      in if length points < 2 then (Inr None, s)
         else
          (let s1 = (if \<not> distanceDataInitialized s then initializeDistanceData e s else s);
               clamped = max 0 (min 1 progress');
               targetDistance = clamped * totalDistance s1
           in case findSegmentAtDistance s1 targetDistance of
                Inl err \<Rightarrow> (Inl err, s1)
              | Inr segmentIndex \<Rightarrow>
                 (case nthOpt points segmentIndex of
                    None \<Rightarrow> (Inr None, s1)
                  | Some point1 \<Rightarrow>
                     (case nthOpt points (min (segmentIndex + 1) (length points - 1)) of
                        None \<Rightarrow> (Inr None, s1)
                      | Some point2 \<Rightarrow>
                         (case cumulativeDistances s1 of
                            None \<Rightarrow> (Inl TypeError, s1)
                          | Some distances \<Rightarrow>
                             (let t = segmentFactor distances segmentIndex targetDistance
                              in case interpolate (Some point1) (Some point2) t of
                                   Inl err \<Rightarrow> (Inl err, s1)
                                 | Inr rawPos \<Rightarrow>
                                    (case smoothPosition rawPos s1 of
                                       (currentPos, s2) \<Rightarrow>
                                        (case calculateMeanDirectionBearing e s2 targetDistance of
                                           Inl err \<Rightarrow> (Inl err, s2)
                                         | Inr meanDirectionBearing \<Rightarrow>
                                            (let immediateLookAhead =
                                                   min (totalDistance s2) (targetDistance + 50)
                                             in case positionAtDistance e s2 immediateLookAhead of
                                                  Inl err \<Rightarrow> (Inl err, s2)
                                                | Inr immediateLookAheadPos \<Rightarrow>
                                                   (let immediateBearing =
                                                          calculateBearing rawPos immediateLookAheadPos;
                                                        speedFactor = max 1 (speed s2);
                                                        meanWeight =
                                                          min 0.95 (0.80 + 0.015 * (speedFactor - 1));
                                                        blendedBearing =
                                                          blendBearings meanDirectionBearing
                                                            immediateBearing meanWeight
                                                    in case smoothBearing blendedBearing s2 of
                                                         (smoothedBearing, s3) \<Rightarrow>
                                                          (Inr (Some \<lparr> position = currentPos,
                                                                 rawPosition = rawPos,
                                                                 bearing = smoothedBearing,
                                                                 rawBearing = blendedBearing,
                                                                 index = segmentIndex \<rparr>),
                                                           s3)))))))))))"

section \<open>TerrainClearanceSolver\<close>

text \<open>
  At a latitude of exactly 90 degrees the divisor \<open>cos\<close> is \<open>0\<close> on the reals, where
  the quotient is \<open>0\<close>; the source divides by the rounded cosine and gets a huge offset.
  No property below depends on the offsets.
\<close>

definition metersToLatLon :: "real \<Rightarrow> real \<Rightarrow> real \<Rightarrow> real \<times> real" where
  "metersToLatLon meters bearing' latitude =
     (let bearingRad = bearing' * pi / 180;
          latOffset = (meters / 111320) * cos bearingRad;
          lonOffset = (meters / (111320 * cos (latitude * pi / 180))) * sin bearingRad
      in (latOffset, lonOffset))"

text \<open>
  The \<open>for\<close> loop of \<open>calculateLineOfSightClearance\<close>, from sample \<open>i\<close> on, with the
  running maximum \<open>minRequiredCamAlt\<close>.
\<close>

function lineOfSightLoop ::
  "env \<Rightarrow> real \<Rightarrow> real \<Rightarrow> real \<Rightarrow> real \<Rightarrow> real \<Rightarrow> nat \<Rightarrow> nat \<Rightarrow> real \<Rightarrow> real" where
  "lineOfSightLoop e cameraLon cameraLat lookAtLon lookAtLat lookAtAlt numSamples i minRequiredCamAlt =
     (if i \<le> numSamples
      then (let t = real i / real numSamples
            in if t \<ge> 0.98
               then lineOfSightLoop e cameraLon cameraLat lookAtLon lookAtLat lookAtAlt
                      numSamples (i + 1) minRequiredCamAlt
               else (let lon' = cameraLon + (lookAtLon - cameraLon) * t;
                         lat' = cameraLat + (lookAtLat - cameraLat) * t;
                         trackEle = getTrackElevationNear e lon' lat';
                         terrainAlt = queryTerrainElevation e lon' lat' (Some trackEle);
                         requiredCamAlt =
                           (terrainAlt + minTerrainClearance - lookAtAlt * t) / (1 - t)
                     in lineOfSightLoop e cameraLon cameraLat lookAtLon lookAtLat lookAtAlt
                          numSamples (i + 1) (max minRequiredCamAlt requiredCamAlt)))
      else minRequiredCamAlt)"
  by pat_completeness auto
termination
  by (relation "measure (\<lambda>(e, cameraLon, cameraLat, lookAtLon, lookAtLat, lookAtAlt,
        numSamples, i, m). numSamples + 1 - i)") auto

text \<open>
  With \<open>numSamples = 0\<close> the only sample has \<open>t = 0 / 0\<close>, which is NaN, and the result
  is NaN: \<open>None\<close> here. The sample count is a whole number (the one caller passes 30).
\<close>

definition calculateLineOfSightClearance ::
  "env \<Rightarrow> real \<Rightarrow> real \<Rightarrow> real \<Rightarrow> real \<Rightarrow> real \<Rightarrow> nat \<Rightarrow> real option" where
  "calculateLineOfSightClearance e cameraLon cameraLat lookAtLon lookAtLat lookAtAlt numSamples =
     (if numSamples = 0 then None
      else Some (lineOfSightLoop e cameraLon cameraLat lookAtLon lookAtLat lookAtAlt
                   numSamples 0 0))"

section \<open>CameraComposer\<close>

text \<open>
  A free pose (camera longitude, latitude, altitude; look-at longitude, latitude and,
  in follow mode, altitude) or the fallback pose of \<open>jumpTo\<close>.
\<close>

datatype camera_pose =
    FreeCamera real real real real real "real option"
  | StandardCamera real real "real option" real real

text \<open>
  \<open>Math.log2\<close> of a negative number is NaN (\<open>None\<close>), of \<open>0\<close> it is \<open>-Infinity\<close>, which
  the clamp turns into 18.
\<close>

definition calculateZoom :: "real \<Rightarrow> real option" where
  "calculateZoom altitude =
     (if altitude < 0 then None
      else if altitude = 0 then Some 18
      else Some (max 10 (min 18 (18 - log 2 (altitude / 50)))))"

text \<open>The ring of eight terrain samples of the bird's-eye mode, angle by angle.\<close>

fun ringLoop :: "env \<Rightarrow> point \<Rightarrow> real list \<Rightarrow> real \<Rightarrow> real" where
  "ringLoop e position' [] maxTerrainHeight = maxTerrainHeight"
| "ringLoop e position' (angle # angles) maxTerrainHeight =
     (case metersToLatLon 500 angle (lat position') of
        (latOffset, lonOffset) \<Rightarrow>
          (let sampleLon = lon position' + lonOffset;
               sampleLat = lat position' + latOffset;
               elevation = queryTerrainElevation e sampleLon sampleLat None
           in ringLoop e position' angles (max maxTerrainHeight elevation)))"

text \<open>
  The free camera is used when the map exists and the free camera calls succeed
  (\<open>freeCameraApi\<close>); a failure there is caught and leads to the fallback pose.
\<close>

definition getCameraPosition :: "env \<Rightarrow> trackPosition \<Rightarrow> state \<Rightarrow> camera_pose \<times> state" where
  "getCameraPosition e trackPos s =
     (let position' = position trackPos;
          bearing' = bearing trackPos;
          trackPointElevation = ele position' * terrainExaggeration;
          freeCamera = (case mapObj e of None \<Rightarrow> False | Some m \<Rightarrow> freeCameraApi m)
      in if mode s = ''follow''
         then
          (let offsetDistance = cameraDistance;
               backBearing = js_mod (bearing' + 180) 360
           in case metersToLatLon offsetDistance backBearing (lat position') of
                (latOffset, lonOffset) \<Rightarrow>
                 (let cameraLon = lon position' + lonOffset;
                      cameraLat = lat position' + latOffset;
                      lookAtDistance = 30
                  in case metersToLatLon lookAtDistance bearing' (lat position') of
                       (lookLatOffset, lookLonOffset) \<Rightarrow>
                        (let lookAtLon = lon position' + lookLonOffset;
                             lookAtLat = lat position' + lookLatOffset;
                             lookAtTerrainEle =
                               queryTerrainElevation e lookAtLon lookAtLat (Some trackPointElevation);
                             lookAtAlt = max trackPointElevation lookAtTerrainEle + 5;
                             lineOfSightCamAlt =
                               the (calculateLineOfSightClearance e cameraLon cameraLat
                                      lookAtLon lookAtLat lookAtAlt 30);
                             cameraGroundElevation =
                               queryTerrainElevation e cameraLon cameraLat (Some trackPointElevation);
                             minAltForLoS = lineOfSightCamAlt + cameraAltitude s;
                             minAltForGround =
                               cameraGroundElevation + cameraAltitude s + minTerrainClearance;
                             rawAltitude = max minAltForLoS minAltForGround
                         in case smoothAltitude rawAltitude s of
                              (requiredAltitude, s1) \<Rightarrow>
                               (if freeCamera
                                then FreeCamera cameraLon cameraLat requiredAltitude
                                       lookAtLon lookAtLat (Some lookAtAlt)
                                else StandardCamera (lon position') (lat position')
                                       (calculateZoom (cameraAltitude s1)) (cameraPitch s1) bearing',
                                s1))))
         else
          (let trackElevation = queryTerrainElevation e (lon position') (lat position') None;
               maxTerrainHeight =
                 ringLoop e position' [0, 45, 90, 135, 180, 225, 270, 315] trackElevation;
               requiredAltitude = maxTerrainHeight + cameraAltitude s * 3 + minTerrainClearance
           in if freeCamera
              then (case metersToLatLon 50 bearing' (lat position') of
                      (latOffset, lonOffset) \<Rightarrow>
                        (FreeCamera (lon position') (lat position') requiredAltitude
                           (lon position' + lonOffset) (lat position' + latOffset) None, s))
              else (StandardCamera (lon position') (lat position')
                      (calculateZoom (cameraAltitude s * 3)) (cameraPitch s) bearing', s)))"

section \<open>PlaybackController\<close>

text \<open>
  The clock readings of \<open>performance.now()\<close> are arguments. The calls that only draw
  (the progress marker, \<open>applyCameraPosition\<close>, \<open>triggerRepaint\<close>) act on the map and
  leave the controller as it is. \<open>animate\<close> returns the error it throws, if any.
\<close>

definition animate :: "env \<Rightarrow> real option \<Rightarrow> real \<Rightarrow> state \<Rightarrow> js_error option \<times> state" where
  "animate e timestamp now s =
     (if \<not> isPlaying s \<or> isPaused s then (None, s)
      else
       (let timestamp' = (case timestamp of None \<Rightarrow> now
                          | Some ts \<Rightarrow> if ts = 0 then now else ts);
            deltaTime = timestamp' - lastTimestamp s;
            s1 = s\<lparr>lastTimestamp := timestamp'\<rparr>;
            baseSpeedMps = 160;
            effectiveSpeed = baseSpeedMps * speed s1;
            distanceThisFrame = effectiveSpeed * (deltaTime / 1000);
            progressIncrement =
              (if totalDistance s1 > 0 then distanceThisFrame / totalDistance s1 else 0);
            s2 = s1\<lparr>progress := min 1 (progress s1 + progressIncrement)\<rparr>
        in case getPointAtProgress e (progress s2) s2 of
             (Inl err, s3) \<Rightarrow> (Some err, s3)
           | (Inr trackPos, s3) \<Rightarrow>
              (let s4 = (case trackPos of None \<Rightarrow> s3
                         | Some tp \<Rightarrow> snd (getCameraPosition e tp s3));
                   s5 = (case onProgress e of None \<Rightarrow> s4 | Some f \<Rightarrow> f (progress s4) s4);
                   s6 = (case onFrame e of None \<Rightarrow> s5 | Some f \<Rightarrow> f (progress s5) s5)
               in if progress s6 \<ge> 1
                  then (let s7 = s6\<lparr>isPlaying := False\<rparr>
                        in (None, (case onComplete e of None \<Rightarrow> s7 | Some f \<Rightarrow> f s7)))
                  else (None, s6\<lparr>animationFrame := Some (nextFrameHandle e)\<rparr>))))"

text \<open>
  \<open>start\<close> returns normally with the messages it has passed to \<open>console.error\<close>
  (\<open>Inr\<close>), or throws (\<open>Inl\<close>). \<open>startTime\<close> is the clock reading stored in
  \<open>lastTimestamp\<close>, \<open>frameTime\<close> the reading taken by the first \<open>animate\<close>.
\<close>

definition start :: "env \<Rightarrow> real \<Rightarrow> real \<Rightarrow> state \<Rightarrow> (js_error + string list) \<times> state" where
  "start e startTime frameTime s =
     (if isPlaying s then (Inr [], s)
      else
       (let points = trackPoints e
        in if length points < 2
           then (Inr [''Not enough track points for animation''], s)
           else
            (let s1 = initializeDistanceData e s;
                 s2 = s1\<lparr>lastCameraAltitude := None, lastBearing := None,
                        bearingHistory := [], lastSmoothedPosition := None\<rparr>;
                 s3 = s2\<lparr>isPlaying := True, isPaused := False, progress := 0,
                        lastTimestamp := startTime\<rparr>
             in case animate e None frameTime s3 of
                  (None, s4) \<Rightarrow> (Inr [], s4)
                | (Some err, s4) \<Rightarrow> (Inl err, s4))))"

definition pause :: "state \<Rightarrow> state" where
  "pause s = s\<lparr>isPaused := True\<rparr>"

definition resume :: "env \<Rightarrow> real \<Rightarrow> real \<Rightarrow> state \<Rightarrow> js_error option \<times> state" where
  "resume e resumeTime frameTime s =
     (if \<not> isPlaying s then (None, s)
      else animate e None frameTime (s\<lparr>isPaused := False, lastTimestamp := resumeTime\<rparr>))"

text \<open>A frame handle of \<open>0\<close> is falsy and is left in place.\<close>

definition stop :: "state \<Rightarrow> state" where
  "stop s =
     (let s1 = s\<lparr>isPlaying := False, isPaused := False, progress := 0,
                 lastCameraAltitude := None, lastBearing := None, bearingHistory := [],
                 lastSmoothedPosition := None\<rparr>
      in case animationFrame s1 of
           None \<Rightarrow> s1
         | Some h \<Rightarrow> if h \<noteq> 0 then s1\<lparr>animationFrame := None\<rparr> else s1)"

text \<open>
  After a frame has been produced \<open>stepToProgress\<close> calls \<open>this.map.triggerRepaint()\<close>,
  which calls \<open>triggerRepaint\<close> on the map engine without testing it: with no engine
  that is a \<open>TypeError\<close>, thrown after the controller has been updated.
\<close>

definition stepToProgress :: "env \<Rightarrow> real \<Rightarrow> state \<Rightarrow> js_error option \<times> state" where
  "stepToProgress e progress' s =
     (let s1 = (if \<not> distanceDataInitialized s then initializeDistanceData e s else s);
          s2 = (if progress' = 0 \<or> progress' < progress s1
                then s1\<lparr>lastCameraAltitude := None, lastBearing := None,
                       bearingHistory := [], lastSmoothedPosition := None\<rparr>
                else s1);
          s3 = s2\<lparr>progress := progress'\<rparr>
      in case getPointAtProgress e progress' s3 of
           (Inl err, s4) \<Rightarrow> (Some err, s4)
         | (Inr None, s4) \<Rightarrow> (None, s4)
         | (Inr (Some tp), s4) \<Rightarrow>
               (if mapObj e = None then Some TypeError else None,
                snd (getCameraPosition e tp s4)))"

section \<open>The sight-line requirement, sample by sample\<close>

text \<open>
  The camera altitude that sample \<open>i\<close> of \<open>numSamples\<close> requires: the expression
  \<open>requiredCamAlt\<close> in the body of the loop of \<open>calculateLineOfSightClearance\<close>.
\<close>

definition sampleRequirement ::
  "env \<Rightarrow> real \<Rightarrow> real \<Rightarrow> real \<Rightarrow> real \<Rightarrow> real \<Rightarrow> nat \<Rightarrow> nat \<Rightarrow> real" where
  "sampleRequirement e cameraLon cameraLat lookAtLon lookAtLat lookAtAlt numSamples i =
     (let t = real i / real numSamples;
          lon' = cameraLon + (lookAtLon - cameraLon) * t;
          lat' = cameraLat + (lookAtLat - cameraLat) * t;
          trackEle = getTrackElevationNear e lon' lat';
          terrainAlt = queryTerrainElevation e lon' lat' (Some trackEle)
      in (terrainAlt + minTerrainClearance - lookAtAlt * t) / (1 - t))"

text \<open>The samples \<open>i = 0..numSamples\<close> with \<open>t = i / numSamples < 0.98\<close>.\<close>

definition keptSamples :: "nat \<Rightarrow> nat list" where
  "keptSamples numSamples =
     filter (\<lambda>i. real i / real numSamples < 0.98) [0..<numSamples + 1]"

text \<open>
  The result as the specification words it: the maximum of the requirement over the kept
  samples. It is compared with \<open>calculateLineOfSightClearance\<close> below.
\<close>

definition specifiedLineOfSightClearance ::
  "env \<Rightarrow> real \<Rightarrow> real \<Rightarrow> real \<Rightarrow> real \<Rightarrow> real \<Rightarrow> nat \<Rightarrow> real" where
  "specifiedLineOfSightClearance e cameraLon cameraLat lookAtLon lookAtLat lookAtAlt numSamples =
     Max (set (map (sampleRequirement e cameraLon cameraLat lookAtLon lookAtLat lookAtAlt numSamples)
                 (keptSamples numSamples)))"

section \<open>Groups of controller fields\<close>

text \<open>
  The fields that playback control and configuration own. A frame computation reads
  them and leaves them as they are.
\<close>

definition controlFields ::
  "state \<Rightarrow> bool \<times> bool \<times> nat option \<times> real \<times> real \<times> string \<times> real \<times> real \<times> real" where
  "controlFields s =
     (isPlaying s, isPaused s, animationFrame s, lastTimestamp s, progress s, mode s,
      speed s, cameraAltitude s, cameraPitch s)"

text \<open>The smoothing reset that \<open>start\<close>, \<open>stop\<close> and \<open>stepToProgress\<close> each write out.\<close>

definition clearSmoothing :: "state \<Rightarrow> state" where
  "clearSmoothing s =
     s\<lparr>lastCameraAltitude := None, lastBearing := None, bearingHistory := [],
       lastSmoothedPosition := None\<rparr>"

section \<open>Concrete tracks and collaborators\<close>

text \<open>No map engine, no callbacks.\<close>

definition envOf :: "point list \<Rightarrow> env" where
  "envOf points =
     \<lparr> trackPoints = points, mapObj = None, onProgress = None, onFrame = None,
       onComplete = None, nextFrameHandle = 1 \<rparr>"

text \<open>A map engine that answers every terrain query with the same result.\<close>

definition envWithTerrain :: "query_result \<Rightarrow> env" where
  "envWithTerrain r =
     \<lparr> trackPoints = [], mapObj = Some \<lparr> terrainQuery = (\<lambda>lon' lat'. r), freeCameraApi = True \<rparr>,
       onProgress = None, onFrame = None, onComplete = None, nextFrameHandle = 1 \<rparr>"

text \<open>Two points on the meridian of Greenwich, a thousandth of a degree apart.\<close>

definition shortTrack :: "point list" where
  "shortTrack = [\<lparr> lat = 0, lon = 0, ele = 0 \<rparr>, \<lparr> lat = 0.001, lon = 0, ele = 0 \<rparr>]"

text \<open>A single point below sea level.\<close>

definition lowTrack :: "point list" where
  "lowTrack = [\<lparr> lat = 0, lon = 0, ele = - 200 \<rparr>]"

text \<open>Two coincident points.\<close>

definition coincidentTrack :: "point list" where
  "coincidentTrack = [\<lparr> lat = 46, lon = 10, ele = 1500 \<rparr>, \<lparr> lat = 46, lon = 10, ele = 1500 \<rparr>]"

text \<open>A controller whose last smoothed bearing is just west of north.\<close>

definition crossingState :: state where
  "crossingState = constructor\<lparr>lastBearing := Some 359, bearingHistory := [359]\<rparr>"

text \<open>The constructor's state at the highest speed of the speed slider.\<close>

definition fastState :: state where
  "fastState = constructor\<lparr>speed := 20\<rparr>"

text \<open>The constructor's state after \<open>setSpeed(0)\<close>.\<close>

definition stalledState :: state where
  "stalledState = constructor\<lparr>speed := 0\<rparr>"

text \<open>A controller that is playing while the track has been emptied.\<close>

definition playingState :: state where
  "playingState = constructor\<lparr>isPlaying := True\<rparr>"

declare distanceLoop.simps [simp del]
declare segmentLoop.simps [simp del]
declare lineOfSightLoop.simps [simp del]
declare shiftLoop.simps [simp del]

section \<open>Properties of the distance index\<close>

lemma atan2_nonneg: "0 \<le> y \<Longrightarrow> 0 \<le> atan2 y x"
proof -
  assume y: "0 \<le> y"
  have lb: "- (pi / 2) < arctan (y / x)" by (rule arctan_lbound)
  consider "0 < x" | "x < 0" | "x = 0" by linarith
  then show ?thesis
  proof cases
    case 1
    then have "0 \<le> y / x" using y by simp
    then have "0 \<le> arctan (y / x)" by simp
    then show ?thesis using 1 by (simp add: atan2_def)
  next
    case 2
    have "0 \<le> arctan (y / x) + pi" using lb pi_gt_zero by linarith
    then show ?thesis using 2 y by (simp add: atan2_def)
  next
    case 3
    then show ?thesis using y pi_gt_zero by (simp add: atan2_def)
  qed
qed

lemma calculateDistance_same:
  "lat p = lat q \<Longrightarrow> lon p = lon q \<Longrightarrow> calculateDistance p q = 0"
  by (simp add: calculateDistance_def atan2_def)

lemma calculateDistance_nonneg:
  assumes "0 \<le> cos (lat p * pi / 180) * cos (lat q * pi / 180)"
  shows "0 \<le> calculateDistance p q"
proof -
  let ?dLat = "lat q * pi / 180 - lat p * pi / 180"
  let ?dLon = "(lon q - lon p) * pi / 180"
  let ?a = "sin (?dLat / 2) * sin (?dLat / 2) +
     cos (lat p * pi / 180) * cos (lat q * pi / 180) * sin (?dLon / 2) * sin (?dLon / 2)"
  have "0 \<le> cos (lat p * pi / 180) * cos (lat q * pi / 180) * (sin (?dLon / 2) * sin (?dLon / 2))"
    using assms by (rule mult_nonneg_nonneg) simp
  moreover have "0 \<le> sin (?dLat / 2) * sin (?dLat / 2)" by simp
  ultimately have "0 \<le> ?a" by (simp only: mult.assoc add_nonneg_nonneg)
  then have "0 \<le> atan2 (sqrt ?a) (sqrt (1 - ?a))" by (intro atan2_nonneg) simp
  then show ?thesis by (simp add: calculateDistance_def Let_def)
qed

lemma valid_latitude_cos: "\<bar>x\<bar> \<le> 90 \<Longrightarrow> 0 \<le> cos (x * pi / 180)"
proof -
  assume "\<bar>x\<bar> \<le> 90"
  then have "- 90 \<le> x" "x \<le> 90" by (simp_all add: abs_le_iff)
  then have "(- 90) * pi \<le> x * pi" "x * pi \<le> 90 * pi"
    using pi_gt_zero by (simp_all only: mult_le_cancel_right_pos)
  then have "- (pi / 2) \<le> x * pi / 180" "x * pi / 180 \<le> pi / 2" by simp_all
  then show ?thesis by (rule cos_ge_zero)
qed

lemma distanceLoop_length:
  "length (snd (distanceLoop pts i tot ds)) = length ds + (length pts - i)"
proof (induction pts i tot ds rule: distanceLoop.induct)
  case (1 points i tot ds)
  show ?case
  proof (cases "i < length points")
    case True
    then show ?thesis using "1"[OF True refl refl] 
      by (subst distanceLoop.simps) (simp add: Let_def)
  next
    case False
    then show ?thesis by (subst distanceLoop.simps) simp
  qed
qed

lemma distanceLoop_nth:
  "j < length ds \<Longrightarrow> snd (distanceLoop pts i tot ds) ! j = ds ! j"
proof (induction pts i tot ds rule: distanceLoop.induct)
  case (1 points i tot ds)
  show ?case
  proof (cases "i < length points")
    case True
    then show ?thesis using "1.IH"[OF True refl refl] "1.prems"
      by (subst distanceLoop.simps) (simp add: Let_def nth_append)
  next
    case False
    then show ?thesis by (subst distanceLoop.simps) simp
  qed
qed

lemma distanceLoop_last:
  "ds \<noteq> [] \<Longrightarrow> last ds = tot \<Longrightarrow>
   snd (distanceLoop pts i tot ds) \<noteq> [] \<and>
   last (snd (distanceLoop pts i tot ds)) = fst (distanceLoop pts i tot ds)"
proof (induction pts i tot ds rule: distanceLoop.induct)
  case (1 points i tot ds)
  show ?case
  proof (cases "i < length points")
    case True
    then show ?thesis using "1.IH"[OF True refl refl] "1.prems"
      by (subst (1 2 3) distanceLoop.simps) (simp add: Let_def)
  next
    case False
    then show ?thesis using "1.prems" by (subst (1 2 3) distanceLoop.simps) simp
  qed
qed

lemma distanceLoop_sorted:
  "ds \<noteq> [] \<Longrightarrow> last ds = tot \<Longrightarrow> sorted ds \<Longrightarrow>
   (\<forall>j. i \<le> j \<and> j < length pts \<longrightarrow> 0 \<le> calculateDistance (pts ! (j - 1)) (pts ! j)) \<Longrightarrow>
   sorted (snd (distanceLoop pts i tot ds))"
proof (induction pts i tot ds rule: distanceLoop.induct)
  case (1 points i tot ds)
  show ?case
  proof (cases "i < length points")
    case True
    let ?d = "calculateDistance (points ! (i - 1)) (points ! i)"
    have d: "0 \<le> ?d" using "1.prems"(4) True by simp
    have "\<forall>x\<in>set ds. x \<le> last ds"
    proof
      fix x assume "x \<in> set ds"
      then obtain k where k: "k < length ds" "ds ! k = x" by (auto simp: in_set_conv_nth)
      have "ds ! k \<le> ds ! (length ds - 1)"
        using "1.prems"(3) k(1) by (intro sorted_nth_mono) auto
      then show "x \<le> last ds" using k "1.prems"(1) by (simp add: last_conv_nth)
    qed
    then have s: "sorted (ds @ [tot + ?d])"
      using "1.prems"(2,3) d by (auto simp: sorted_append intro: order_trans)
    have "sorted (snd (distanceLoop points (i + 1) (tot + ?d) (ds @ [tot + ?d])))"
      using "1.IH"[OF True refl refl] s "1.prems"(4) by simp
    then show ?thesis using True by (subst distanceLoop.simps) (simp add: Let_def)
  next
    case False
    then show ?thesis using "1.prems" by (subst distanceLoop.simps) simp
  qed
qed

lemma distanceLoop_zero:
  "(\<forall>j. i \<le> j \<and> j < length pts \<longrightarrow> calculateDistance (pts ! (j - 1)) (pts ! j) = 0) \<Longrightarrow>
   fst (distanceLoop pts i tot ds) = tot"
proof (induction pts i tot ds rule: distanceLoop.induct)
  case (1 points i tot ds)
  show ?case
  proof (cases "i < length points")
    case True
    have d: "calculateDistance (points ! (i - 1)) (points ! i) = 0" using "1.prems" True by simp
    have "fst (distanceLoop points (i + 1) (tot + 0) (ds @ [tot + 0])) = tot + 0"
      using "1.IH"[OF True refl refl] "1.prems" d by simp
    then show ?thesis using True d by (subst distanceLoop.simps) (simp add: Let_def)
  next
    case False
    then show ?thesis by (subst distanceLoop.simps) simp
  qed
qed

lemma segmentLoop_bounds:
  "left < right \<Longrightarrow> right < length ds \<Longrightarrow> ds ! left \<le> d \<Longrightarrow> d \<le> ds ! right \<Longrightarrow>
   left \<le> segmentLoop ds d left right \<and> segmentLoop ds d left right < right \<and>
   ds ! (segmentLoop ds d left right) \<le> d \<and> d \<le> ds ! (segmentLoop ds d left right + 1)"
proof (induction ds d left right rule: segmentLoop.induct)
  case (1 distances targetDistance left right)
  show ?case
  proof (cases "left + 1 < right")
    case False
    then have r: "right = Suc left" using "1.prems"(1) by simp
    have "segmentLoop distances targetDistance left right = left"
      using False by (subst segmentLoop.simps) simp
    then show ?thesis using "1.prems" unfolding r by simp
  next
    case True
    let ?mid = "(left + right) div 2"
    have m: "left < ?mid" "?mid < right" using True by auto
    show ?thesis
    proof (cases "distances ! ?mid \<le> targetDistance")
      case le: True
      have "?mid \<le> segmentLoop distances targetDistance ?mid right \<and>
        segmentLoop distances targetDistance ?mid right < right \<and>
        distances ! segmentLoop distances targetDistance ?mid right \<le> targetDistance \<and>
        targetDistance \<le> distances ! (segmentLoop distances targetDistance ?mid right + 1)"
        using "1.IH"(1)[OF True refl le m(2) "1.prems"(2) le "1.prems"(4)] .
      then show ?thesis using True le m by (subst (1 2 3 4) segmentLoop.simps) (simp add: Let_def)
    next
      case gt: False
      have r: "?mid < length distances" using m "1.prems"(2) by simp
      have "left \<le> segmentLoop distances targetDistance left ?mid \<and>
        segmentLoop distances targetDistance left ?mid < ?mid \<and>
        distances ! segmentLoop distances targetDistance left ?mid \<le> targetDistance \<and>
        targetDistance \<le> distances ! (segmentLoop distances targetDistance left ?mid + 1)"
        using "1.IH"(2)[OF True refl gt m(1) r "1.prems"(3)] gt by simp
      then show ?thesis using True gt m by (subst (1 2 3 4) segmentLoop.simps) (simp add: Let_def)
    qed
  qed
qed

lemma initializeDistanceData_eq:
  "2 \<le> length (trackPoints e) \<Longrightarrow>
   initializeDistanceData e s =
     s\<lparr>cumulativeDistances := Some (snd (distanceLoop (trackPoints e) 1 0 [0])),
       totalDistance := fst (distanceLoop (trackPoints e) 1 0 [0]),
       distanceDataInitialized := True\<rparr>"
  by (simp add: initializeDistanceData_def Let_def split_beta)

lemma initializeDistanceData_short:
  "length (trackPoints e) < 2 \<Longrightarrow>
   initializeDistanceData e s = s\<lparr>distanceDataInitialized := False\<rparr>"
  by (simp add: initializeDistanceData_def Let_def)

lemma initializeDistanceData_index:
  assumes "2 \<le> length (trackPoints e)"
  shows "\<exists>ds. cumulativeDistances (initializeDistanceData e s) = Some ds \<and>
              length ds = length (trackPoints e) \<and> ds ! 0 = 0 \<and>
              ds ! (length ds - 1) = totalDistance (initializeDistanceData e s) \<and>
              distanceDataInitialized (initializeDistanceData e s)"
proof -
  let ?r = "distanceLoop (trackPoints e) 1 0 [0]"
  have l: "length (snd ?r) = length (trackPoints e)"
    using assms by (simp add: distanceLoop_length)
  have z: "snd ?r ! 0 = 0" using distanceLoop_nth[of 0 "[0]" "trackPoints e" 1 0] by simp
  have la: "snd ?r \<noteq> [] \<and> last (snd ?r) = fst ?r" by (rule distanceLoop_last) simp_all
  have "last (snd ?r) = snd ?r ! (length (snd ?r) - 1)"
    using la by (intro last_conv_nth) simp
  then have "snd ?r ! (length (snd ?r) - 1) = fst ?r" using la by simp
  then show ?thesis using l z
    by (simp add: initializeDistanceData_eq[OF assms])
qed

lemma initializeDistanceData_sorted:
  assumes "2 \<le> length (trackPoints e)"
    and "\<forall>p\<in>set (trackPoints e). \<bar>lat p\<bar> \<le> 90"
  shows "sorted (the (cumulativeDistances (initializeDistanceData e s)))"
proof -
  have "\<forall>j. 1 \<le> j \<and> j < length (trackPoints e) \<longrightarrow>
          0 \<le> calculateDistance (trackPoints e ! (j - 1)) (trackPoints e ! j)"
  proof (intro allI impI)
    fix j assume j: "1 \<le> j \<and> j < length (trackPoints e)"
    then have "j - 1 < length (trackPoints e)" by arith
    then have "trackPoints e ! (j - 1) \<in> set (trackPoints e)" "trackPoints e ! j \<in> set (trackPoints e)"
      using j by (simp_all only: nth_mem)
    then have "0 \<le> cos (lat (trackPoints e ! (j - 1)) * pi / 180)"
      "0 \<le> cos (lat (trackPoints e ! j) * pi / 180)"
      using assms(2) by (simp_all add: valid_latitude_cos)
    then show "0 \<le> calculateDistance (trackPoints e ! (j - 1)) (trackPoints e ! j)"
      by (intro calculateDistance_nonneg mult_nonneg_nonneg)
  qed
  then have "sorted (snd (distanceLoop (trackPoints e) 1 0 [0]))"
    by (intro distanceLoop_sorted) simp_all
  then show ?thesis
    by (simp add: initializeDistanceData_eq[OF assms(1)])
qed

lemma atan2_sin_cos:
  assumes "0 \<le> x" "x \<le> pi / 2"
  shows "atan2 (sin x) (cos x) = x"
proof (cases "x < pi / 2")
  case True
  then have c: "0 < cos x" using assms(1) by (intro cos_gt_zero_pi) linarith+
  have "arctan (tan x) = x" using True assms(1) pi_gt_zero by (intro arctan_tan) linarith+
  then show ?thesis using c by (simp add: atan2_def tan_def)
next
  case False
  then have x: "x = pi / 2" using assms(2) by simp
  have "atan2 (sin (pi / 2)) (cos (pi / 2)) = pi / 2" by (simp add: atan2_def)
  then show ?thesis unfolding x .
qed

lemma calculateDistance_meridian:
  assumes "lon p = lon q" "lat p \<le> lat q" "lat q - lat p \<le> 180"
  shows "calculateDistance p q = 6371000 * ((lat q - lat p) * pi / 180)"
proof -
  define x where "x = (lat q * pi / 180 - lat p * pi / 180) / 2"
  have x2: "2 * x = (lat q - lat p) * pi / 180" by (simp add: x_def field_simps)
  have "0 \<le> (lat q - lat p) * pi" using assms(2) pi_gt_zero by simp
  then have x0: "0 \<le> x" using x2 by linarith
  have "(lat q - lat p) * pi \<le> 180 * pi" using assms(3) pi_gt_zero
    by (simp only: mult_le_cancel_right_pos)
  then have x1: "x \<le> pi / 2" using x2 by linarith
  have s: "0 \<le> sin x" using x0 x1 pi_gt_zero by (intro sin_ge_zero) linarith+
  have c: "0 \<le> cos x" using x0 x1 by (intro cos_ge_zero) linarith+
  have a: "sin x * sin x + cos (lat p * pi / 180) * cos (lat q * pi / 180) * sin 0 * sin 0
        = (sin x)\<^sup>2" by (simp add: power2_eq_square)
  have "1 - (sin x)\<^sup>2 = (cos x)\<^sup>2" using sin_cos_squared_add[of x] by linarith
  then have "atan2 (sqrt ((sin x)\<^sup>2)) (sqrt (1 - (sin x)\<^sup>2)) = atan2 (sin x) (cos x)"
    using s c by simp
  then have "atan2 (sqrt ((sin x)\<^sup>2)) (sqrt (1 - (sin x)\<^sup>2)) = x"
    using atan2_sin_cos[OF x0 x1] by simp
  then have "calculateDistance p q = 6371000 * (2 * x)"
    using assms(1) a by (simp add: calculateDistance_def Let_def x_def[symmetric] power2_eq_square)
  then show ?thesis using x2 by simp
qed

lemma shortTrack_index:
  "initializeDistanceData (envOf shortTrack) s =
     s\<lparr>cumulativeDistances := Some [0, 6371 * pi / 180], totalDistance := 6371 * pi / 180,
       distanceDataInitialized := True\<rparr>"
proof -
  have d: "calculateDistance \<lparr> lat = 0, lon = 0, ele = 0 \<rparr> \<lparr> lat = 1 / 1000, lon = 0, ele = 0 \<rparr>
        = 6371 * pi / 180"
    by (subst calculateDistance_meridian) simp_all
  have "distanceLoop shortTrack 1 0 [0] = (6371 * pi / 180, [0, 6371 * pi / 180])"
    by (subst distanceLoop.simps, subst distanceLoop.simps) (simp add: shortTrack_def Let_def d)
  then show ?thesis
    by (simp add: initializeDistanceData_def envOf_def Let_def shortTrack_def)
qed

text \<open>
  C3. For every track with at least two points and every distance \<open>d\<close> between \<open>0\<close> and
  the total distance, \<open>findSegmentAtDistance\<close> on the index that
  \<open>initializeDistanceData\<close> has built returns a segment \<open>i\<close> with \<open>i \<le> n - 2\<close> and
  \<open>D[i] \<le> d \<le> D[i + 1]\<close>. The index \<open>D\<close> has one entry per point, starts at \<open>0\<close> and
  ends at the total distance; it is non-decreasing when the latitudes are valid
  (between \<open>-90\<close> and \<open>90\<close> degrees; outside that range the source's square root is
  NaN, which the reals do not have).
\<close>

theorem findSegmentAtDistance_correct:
  assumes "2 \<le> length (trackPoints e)"
    and "0 \<le> d" and "d \<le> totalDistance (initializeDistanceData e s)"
  shows "\<exists>D i. cumulativeDistances (initializeDistanceData e s) = Some D \<and>
           length D = length (trackPoints e) \<and> D ! 0 = 0 \<and>
           D ! (length D - 1) = totalDistance (initializeDistanceData e s) \<and>
           ((\<forall>p\<in>set (trackPoints e). \<bar>lat p\<bar> \<le> 90) \<longrightarrow> sorted D) \<and>
           findSegmentAtDistance (initializeDistanceData e s) d = Inr i \<and>
           i \<le> length D - 2 \<and> D ! i \<le> d \<and> d \<le> D ! (i + 1)"
proof -
  let ?s = "initializeDistanceData e s"
  obtain D where D: "cumulativeDistances ?s = Some D" "length D = length (trackPoints e)"
    "D ! 0 = 0" "D ! (length D - 1) = totalDistance ?s"
    using initializeDistanceData_index[OF assms(1)] by blast
  let ?i = "segmentLoop D d 0 (length D - 1)"
  have b: "0 \<le> ?i \<and> ?i < length D - 1 \<and> D ! ?i \<le> d \<and> d \<le> D ! (?i + 1)"
    using assms D by (intro segmentLoop_bounds) simp_all
  have f: "findSegmentAtDistance ?s d = Inr ?i" using D(1) by (simp add: findSegmentAtDistance_def)
  have so: "(\<forall>p\<in>set (trackPoints e). \<bar>lat p\<bar> \<le> 90) \<longrightarrow> sorted D"
    using initializeDistanceData_sorted[OF assms(1), of s] D(1) by simp
  have "?i \<le> length D - 2" using b by arith
  then show ?thesis using D f b so by blast
qed

theorem findSegmentAtDistance_correct_witness:
  "2 \<le> length (trackPoints (envOf shortTrack)) \<and> (0::real) \<le> 50 \<and>
   50 \<le> totalDistance (initializeDistanceData (envOf shortTrack) constructor) \<and>
   list_all (\<lambda>p. \<bar>lat p\<bar> \<le> 90) (trackPoints (envOf shortTrack)) \<and>
   (\<exists>D i. cumulativeDistances (initializeDistanceData (envOf shortTrack) constructor) = Some D \<and>
           length D = length (trackPoints (envOf shortTrack)) \<and> D ! 0 = 0 \<and>
           D ! (length D - 1) = totalDistance (initializeDistanceData (envOf shortTrack) constructor) \<and>
           sorted D \<and>
           findSegmentAtDistance (initializeDistanceData (envOf shortTrack) constructor) 50 = Inr i \<and>
           i \<le> length D - 2 \<and> D ! i \<le> 50 \<and> 50 \<le> D ! (i + 1))"
proof -
  have h1: "2 \<le> length (trackPoints (envOf shortTrack))"
    by (simp add: envOf_def shortTrack_def)
  have h2: "(0::real) \<le> 50" by simp
  have "50 * 180 \<le> 6371 * pi" using pi_ge_two by linarith
  then have h3: "50 \<le> totalDistance (initializeDistanceData (envOf shortTrack) constructor)"
    by (simp add: shortTrack_index)
  have h4: "\<forall>p\<in>set (trackPoints (envOf shortTrack)). \<bar>lat p\<bar> \<le> 90"
    by (simp add: envOf_def shortTrack_def)
  have h5: "list_all (\<lambda>p. \<bar>lat p\<bar> \<le> 90) (trackPoints (envOf shortTrack))"
    by (simp add: envOf_def shortTrack_def)
  show ?thesis
    using h1 h2 h3 h4 h5 findSegmentAtDistance_correct [OF h1 h2 h3] by blast
qed

section \<open>Altitude smoothing\<close>

text \<open>
  C1. \<open>smoothAltitude\<close> is asymmetric. With no stored altitude (the first call after a
  reset) it returns its input and stores it. Afterwards a required altitude strictly
  above the stored one is returned and stored as it is, and a required altitude at or
  below the stored one \<open>l\<close> gives \<open>l + 0.05 * (target - l)\<close>.
\<close>

theorem smoothAltitude_asymmetric:
  "(lastCameraAltitude s = None \<longrightarrow>
      smoothAltitude target s = (target, s\<lparr>lastCameraAltitude := Some target\<rparr>)) \<and>
   (\<forall>lastAlt. lastCameraAltitude s = Some lastAlt \<and> target > lastAlt \<longrightarrow>
      smoothAltitude target s = (target, s\<lparr>lastCameraAltitude := Some target\<rparr>)) \<and>
   (\<forall>lastAlt. lastCameraAltitude s = Some lastAlt \<and> target \<le> lastAlt \<longrightarrow>
      smoothAltitude target s =
        (lastAlt + 0.05 * (target - lastAlt),
         s\<lparr>lastCameraAltitude := Some (lastAlt + 0.05 * (target - lastAlt))\<rparr>))"
  by (auto simp: smoothAltitude_def altitudeSmoothingFactor_def Let_def)

theorem smoothAltitude_asymmetric_witness:
  "lastCameraAltitude constructor = None \<and>
   fst (smoothAltitude 120 constructor) = 120 \<and>
   lastCameraAltitude (constructor\<lparr>lastCameraAltitude := Some 100\<rparr>) = Some 100 \<and>
   (120::real) > 100 \<and>
   fst (smoothAltitude 120 (constructor\<lparr>lastCameraAltitude := Some 100\<rparr>)) = 120 \<and>
   (60::real) \<le> 100 \<and>
   fst (smoothAltitude 60 (constructor\<lparr>lastCameraAltitude := Some 100\<rparr>)) = 98"
  using smoothAltitude_asymmetric [of constructor 120]
    smoothAltitude_asymmetric [of "constructor\<lparr>lastCameraAltitude := Some 100\<rparr>" 120]
    smoothAltitude_asymmetric [of "constructor\<lparr>lastCameraAltitude := Some 100\<rparr>" 60]
  by (simp add: constructor_def)

section \<open>Terrain query fallback\<close>

text \<open>
  C9. \<open>queryTerrainElevation\<close> returns the fallback elevation (\<open>0\<close> when none is
  given) when the map is missing, when the map's answer is \<open>null\<close> or at most \<open>0\<close>, and
  when the map query throws; a strictly positive answer is returned multiplied by the
  terrain exaggeration \<open>1.5\<close>. So a terrain elevation of \<open>0\<close> or below is replaced by
  the fallback.
\<close>

theorem queryTerrainElevation_fallback:
  "orZero None = 0 \<and> orZero (Some fb) = fb \<and>
   (mapObj e = None \<longrightarrow> queryTerrainElevation e lo la fallback = orZero fallback) \<and>
   (\<forall>m. mapObj e = Some m \<longrightarrow>
      (terrainQuery m lo la = QNull \<longrightarrow> queryTerrainElevation e lo la fallback = orZero fallback) \<and>
      (terrainQuery m lo la = QThrows \<longrightarrow> queryTerrainElevation e lo la fallback = orZero fallback) \<and>
      (\<forall>v. terrainQuery m lo la = QElevation v \<and> v \<le> 0 \<longrightarrow>
           queryTerrainElevation e lo la fallback = orZero fallback) \<and>
      (\<forall>v. terrainQuery m lo la = QElevation v \<and> v > 0 \<longrightarrow>
           queryTerrainElevation e lo la fallback = v * 1.5))"
  by (auto simp: queryTerrainElevation_def orZero_def terrainExaggeration_def)

theorem queryTerrainElevation_fallback_witness:
  "mapObj (envOf []) = None \<and> queryTerrainElevation (envOf []) 7 8 (Some 30) = 30 \<and>
   mapObj (envWithTerrain (QElevation 100)) =
     Some \<lparr> terrainQuery = (\<lambda>lon' lat'. QElevation 100), freeCameraApi = True \<rparr> \<and>
   queryTerrainElevation (envWithTerrain (QElevation 100)) 7 8 (Some 30) = 150 \<and>
   queryTerrainElevation (envWithTerrain (QElevation (- 5))) 7 8 (Some 30) = 30 \<and>
   queryTerrainElevation (envWithTerrain (QElevation 0)) 7 8 None = 0 \<and>
   queryTerrainElevation (envWithTerrain QNull) 7 8 (Some 30) = 30 \<and>
   queryTerrainElevation (envWithTerrain QThrows) 7 8 (Some 30) = 30"
  using queryTerrainElevation_fallback [of 30 "envOf []" 7 8 "Some 30"]
    queryTerrainElevation_fallback [of 30 "envWithTerrain (QElevation 100)" 7 8 "Some 30"]
    queryTerrainElevation_fallback [of 30 "envWithTerrain (QElevation (- 5))" 7 8 "Some 30"]
    queryTerrainElevation_fallback [of 30 "envWithTerrain (QElevation 0)" 7 8 None]
    queryTerrainElevation_fallback [of 30 "envWithTerrain QNull" 7 8 "Some 30"]
    queryTerrainElevation_fallback [of 30 "envWithTerrain QThrows" 7 8 "Some 30"]
  by (simp add: envOf_def envWithTerrain_def)

section \<open>Duration of the flyover\<close>

lemma initializeDistanceData_speed: "speed (initializeDistanceData e s) = speed s"
  by (simp add: initializeDistanceData_def Let_def split_beta)

lemma coincident_total:
  assumes "2 \<le> length (trackPoints e)"
    and "\<forall>p\<in>set (trackPoints e). lat p = lat (hd (trackPoints e)) \<and> lon p = lon (hd (trackPoints e))"
  shows "totalDistance (initializeDistanceData e s) = 0"
proof -
  have "\<forall>j. 1 \<le> j \<and> j < length (trackPoints e) \<longrightarrow>
          calculateDistance (trackPoints e ! (j - 1)) (trackPoints e ! j) = 0"
  proof (intro allI impI)
    fix j assume j: "1 \<le> j \<and> j < length (trackPoints e)"
    then have "j - 1 < length (trackPoints e)" by arith
    then have "trackPoints e ! (j - 1) \<in> set (trackPoints e)" "trackPoints e ! j \<in> set (trackPoints e)"
      using j by (simp_all only: nth_mem)
    then show "calculateDistance (trackPoints e ! (j - 1)) (trackPoints e ! j) = 0"
      using assms(2) by (intro calculateDistance_same) simp_all
  qed
  then have "fst (distanceLoop (trackPoints e) 1 0 [0]) = 0" by (rule distanceLoop_zero)
  then show ?thesis by (simp add: initializeDistanceData_eq[OF assms(1)])
qed

text \<open>
  C10. \<open>getTotalDuration\<close> builds the distance index first when it is missing. With a
  positive total distance it returns \<open>totalDistance / (160 * speed)\<close>, a number when
  the speed is not \<open>0\<close> and \<open>Infinity\<close> when it is; otherwise it returns the constant
  \<open>160\<close>. A track of at least two coincident points has total distance \<open>0\<close> and so gets
  \<open>160\<close>, not \<open>0\<close>.
\<close>

theorem getTotalDuration_value:
  "(distanceDataInitialized s \<and> totalDistance s > 0 \<and> speed s \<noteq> 0 \<longrightarrow>
      fst (getTotalDuration e s) = Finite (totalDistance s / (160 * speed s))) \<and>
   (distanceDataInitialized s \<and> totalDistance s > 0 \<and> speed s = 0 \<longrightarrow>
      fst (getTotalDuration e s) = PositiveInfinity) \<and>
   (distanceDataInitialized s \<and> totalDistance s \<le> 0 \<longrightarrow>
      fst (getTotalDuration e s) = Finite 160) \<and>
   (\<not> distanceDataInitialized s \<and> totalDistance (initializeDistanceData e s) > 0 \<and>
    speed s \<noteq> 0 \<longrightarrow>
      fst (getTotalDuration e s) =
        Finite (totalDistance (initializeDistanceData e s) / (160 * speed s))) \<and>
   (\<not> distanceDataInitialized s \<and> totalDistance (initializeDistanceData e s) > 0 \<and>
    speed s = 0 \<longrightarrow>
      fst (getTotalDuration e s) = PositiveInfinity) \<and>
   (\<not> distanceDataInitialized s \<and> totalDistance (initializeDistanceData e s) \<le> 0 \<longrightarrow>
      fst (getTotalDuration e s) = Finite 160) \<and>
   (\<not> distanceDataInitialized s \<and> 2 \<le> length (trackPoints e) \<and>
    (\<forall>p\<in>set (trackPoints e). lat p = lat (hd (trackPoints e)) \<and> lon p = lon (hd (trackPoints e))) \<longrightarrow>
      totalDistance (initializeDistanceData e s) = 0 \<and> fst (getTotalDuration e s) = Finite 160)"
  using coincident_total[of e s]
  by (auto simp: getTotalDuration_def Let_def initializeDistanceData_speed)

theorem getTotalDuration_value_witness:
  "\<not> distanceDataInitialized constructor \<and>
   totalDistance (initializeDistanceData (envOf shortTrack) constructor) > 0 \<and>
   speed constructor \<noteq> 0 \<and>
   fst (getTotalDuration (envOf shortTrack) constructor) = Finite (6371 * pi / 180 / 160) \<and>
   \<not> distanceDataInitialized stalledState \<and>
   totalDistance (initializeDistanceData (envOf shortTrack) stalledState) > 0 \<and>
   speed stalledState = 0 \<and>
   fst (getTotalDuration (envOf shortTrack) stalledState) = PositiveInfinity \<and>
   2 \<le> length (trackPoints (envOf coincidentTrack)) \<and>
   totalDistance (initializeDistanceData (envOf coincidentTrack) constructor) = 0 \<and>
   fst (getTotalDuration (envOf coincidentTrack) constructor) = Finite 160"
proof -
  have n: "\<not> distanceDataInitialized constructor" by (simp add: constructor_def)
  have t: "totalDistance (initializeDistanceData (envOf shortTrack) constructor) = 6371 * pi / 180"
    by (simp add: shortTrack_index)
  have p: "totalDistance (initializeDistanceData (envOf shortTrack) constructor) > 0"
    unfolding t using pi_gt_zero by simp
  have sp: "speed constructor = 1" by (simp add: constructor_def)
  have sp0: "speed constructor \<noteq> 0" by (simp add: constructor_def)
  have d1: "fst (getTotalDuration (envOf shortTrack) constructor) = Finite (6371 * pi / 180 / 160)"
    using getTotalDuration_value [of constructor "envOf shortTrack"] n p t sp by simp
  have n0: "\<not> distanceDataInitialized stalledState"
    by (simp add: stalledState_def constructor_def)
  have t0: "totalDistance (initializeDistanceData (envOf shortTrack) stalledState) = 6371 * pi / 180"
    by (simp add: shortTrack_index)
  have p0: "totalDistance (initializeDistanceData (envOf shortTrack) stalledState) > 0"
    unfolding t0 using pi_gt_zero by simp
  have z: "speed stalledState = 0" by (simp add: stalledState_def)
  have d0: "fst (getTotalDuration (envOf shortTrack) stalledState) = PositiveInfinity"
    using getTotalDuration_value [of stalledState "envOf shortTrack"] n0 p0 z by blast
  have l: "2 \<le> length (trackPoints (envOf coincidentTrack))"
    by (simp add: envOf_def coincidentTrack_def)
  have c: "\<forall>p\<in>set (trackPoints (envOf coincidentTrack)).
             lat p = lat (hd (trackPoints (envOf coincidentTrack))) \<and>
             lon p = lon (hd (trackPoints (envOf coincidentTrack)))"
    by (simp add: envOf_def coincidentTrack_def)
  have d2: "totalDistance (initializeDistanceData (envOf coincidentTrack) constructor) = 0 \<and>
            fst (getTotalDuration (envOf coincidentTrack) constructor) = Finite 160"
    using getTotalDuration_value [of constructor "envOf coincidentTrack"] n l c by blast
  show ?thesis using n p sp0 d1 n0 p0 z d0 l d2 by blast
qed

section \<open>Bearing smoothing\<close>










section \<open>Line-of-sight clearance\<close>

lemma lineOfSightLoop_fold:
  "lineOfSightLoop e cLon cLat lLon lLat alt n i m =
     fold max (map (sampleRequirement e cLon cLat lLon lLat alt n)
                 (filter (\<lambda>i. real i / real n < 0.98) [i..<n + 1])) m"
proof (induction e cLon cLat lLon lLat alt n i m rule: lineOfSightLoop.induct)
  case (1 e cameraLon cameraLat lookAtLon lookAtLat lookAtAlt numSamples i m)
  show ?case
  proof (cases "i \<le> numSamples")
    case False
    then show ?thesis by (subst lineOfSightLoop.simps) simp
  next
    case True
    then have u: "[i..<Suc numSamples] = i # [Suc i..<Suc numSamples]"
      by (simp add: upt_conv_Cons)
    show ?thesis
    proof (cases "real i / real numSamples \<ge> 0.98")
      case skip: True
      show ?thesis
        using True skip "1.IH"(1)[OF True refl skip]
        by (subst lineOfSightLoop.simps) (simp add: u Let_def del: upt_Suc)
    next
      case keep: False
      have "lineOfSightLoop e cameraLon cameraLat lookAtLon lookAtLat lookAtAlt numSamples i m =
            lineOfSightLoop e cameraLon cameraLat lookAtLon lookAtLat lookAtAlt numSamples (i + 1)
              (max m (sampleRequirement e cameraLon cameraLat lookAtLon lookAtLat lookAtAlt numSamples i))"
        using True keep
        by (subst lineOfSightLoop.simps) (simp add: Let_def sampleRequirement_def)
      also have "\<dots> = fold max (map (sampleRequirement e cameraLon cameraLat lookAtLon lookAtLat lookAtAlt numSamples)
                 (filter (\<lambda>i. real i / real numSamples < 0.98) [i + 1..<numSamples + 1]))
                 (max m (sampleRequirement e cameraLon cameraLat lookAtLon lookAtLat lookAtAlt numSamples i))"
        using "1.IH"(2)[OF True refl keep refl refl refl refl refl]
        unfolding sampleRequirement_def Let_def .
      finally show ?thesis using keep by (simp add: u max.commute del: upt_Suc)
    qed
  qed
qed

lemma fold_max_Max: "fold max xs (m::real) = Max (insert m (set xs))"
  using Max.set_eq_fold[of m xs] by simp

lemma keptSamples_iff:
  "i \<in> set (keptSamples n) \<longleftrightarrow> i \<le> n \<and> real i / real n < 0.98"
  unfolding keptSamples_def set_filter by auto

lemma keptSamples_zero: "1 \<le> n \<Longrightarrow> 0 \<in> set (keptSamples n)"
  by (simp add: keptSamples_iff)

lemma lineOfSight_result:
  assumes "1 \<le> n"
  shows "calculateLineOfSightClearance e cLon cLat lLon lLat alt n =
           Some (max 0 (specifiedLineOfSightClearance e cLon cLat lLon lLat alt n))"
proof -
  let ?xs = "map (sampleRequirement e cLon cLat lLon lLat alt n) (keptSamples n)"
  have ne: "set ?xs \<noteq> {}" using keptSamples_zero[OF assms] by auto
  have "lineOfSightLoop e cLon cLat lLon lLat alt n 0 0 = Max (insert 0 (set ?xs))"
    by (simp only: lineOfSightLoop_fold fold_max_Max keptSamples_def)
  also have "\<dots> = max 0 (Max (set ?xs))" using ne by (intro Max_insert) simp_all
  finally show ?thesis using assms
    by (simp add: calculateLineOfSightClearance_def specifiedLineOfSightClearance_def)
qed

lemma flat_requirement:
  assumes "\<forall>lo la. queryTerrainElevation e lo la (Some (getTrackElevationNear e lo la)) = 0"
  shows "sampleRequirement e cLon cLat lLon lLat 5 n i =
           (80 - 5 * (real i / real n)) / (1 - real i / real n)"
  using assms by (simp add: sampleRequirement_def Let_def minTerrainClearance_def)

lemma sample_ge:
  assumes "i \<in> set (keptSamples n)" "1 \<le> n"
  shows "sampleRequirement e cLon cLat lLon lLat alt n i
           \<le> the (calculateLineOfSightClearance e cLon cLat lLon lLat alt n)"
proof -
  let ?xs = "map (sampleRequirement e cLon cLat lLon lLat alt n) (keptSamples n)"
  have "sampleRequirement e cLon cLat lLon lLat alt n i \<in> set ?xs" using assms(1) by simp
  then have "sampleRequirement e cLon cLat lLon lLat alt n i \<le> Max (set ?xs)"
    by (intro Max_ge) simp_all
  then show ?thesis
    by (simp add: lineOfSight_result[OF assms(2)] specifiedLineOfSightClearance_def)
qed

lemma sixteenth_sample:
  assumes "2 \<le> n"
  shows "(n + 15) div 16 \<in> set (keptSamples n) \<and> 1 / 16 \<le> real ((n + 15) div 16) / real n"
proof -
  let ?i = "(n + 15) div 16"
  have a: "n \<le> 16 * ?i" by arith
  have b: "50 * ?i < 49 * n" using assms by arith
  have c: "?i \<le> n" using assms by arith
  have n0: "0 < real n" using assms by simp
  have "real (50 * ?i) < real (49 * n)" using b by (simp only: of_nat_less_iff)
  then have "50 * real ?i < 49 * real n" by simp
  then have lt: "real ?i / real n < 0.98" using n0 by (simp add: field_simps)
  have "real n \<le> real (16 * ?i)" using a by (simp only: of_nat_le_iff)
  then have "real n \<le> 16 * real ?i" by simp
  then have ge: "1 / 16 \<le> real ?i / real n" using n0 by (simp add: field_simps)
  show ?thesis using lt ge c by (simp only: keptSamples_iff simp_thms)
qed

lemma flat_value_85:
  assumes "1 / 16 \<le> (t::real)" "t < 0.98"
  shows "85 \<le> (80 - 5 * t) / (1 - t)"
proof -
  have p: "0 < 1 - t" using assms(2) by simp
  have "85 * (1 - t) \<le> 80 - 5 * t" using assms(1) by simp
  then show ?thesis using p by (simp add: pos_le_divide_eq)
qed

lemma keptSamples_1: "keptSamples (Suc 0) = [0]"
  by (simp add: keptSamples_def)

lemma low_requirement: "sampleRequirement (envOf lowTrack) 0 0 0 0 5 (Suc 0) 0 = - 120"
  by (simp add: sampleRequirement_def Let_def getTrackElevationNear_def queryTerrainElevation_def
      orZero_def envOf_def lowTrack_def minTerrainClearance_def)

lemma flat_envOf_empty:
  "queryTerrainElevation (envOf []) lo la (Some (getTrackElevationNear (envOf []) lo la)) = 0"
  by (simp add: getTrackElevationNear_def queryTerrainElevation_def orZero_def envOf_def)

text \<open>
  C2, as amended. For a sample count of at least one, \<open>calculateLineOfSightClearance\<close>
  returns the larger of \<open>0\<close> and the maximum, over the samples \<open>t = i / N\<close> with
  \<open>t < 0.98\<close>, of \<open>(terrainAlt(t) + 80 - lookAtAlt * t) / (1 - t)\<close>: the running maximum
  starts at \<open>0\<close>. Over terrain that is \<open>0\<close> at every sample and with a look-at altitude
  of \<open>5\<close> the result is at least \<open>80\<close>, and at least \<open>85\<close> as soon as there are two
  samples or more (the camera composer asks for 30).
\<close>

theorem calculateLineOfSightClearance_max:
  assumes "1 \<le> numSamples"
  shows "calculateLineOfSightClearance e cameraLon cameraLat lookAtLon lookAtLat lookAtAlt numSamples =
           Some (max 0 (specifiedLineOfSightClearance e cameraLon cameraLat lookAtLon lookAtLat
                          lookAtAlt numSamples)) \<and>
         ((\<forall>lo la. queryTerrainElevation e lo la (Some (getTrackElevationNear e lo la)) = 0) \<longrightarrow>
            80 \<le> the (calculateLineOfSightClearance e cameraLon cameraLat lookAtLon lookAtLat 5 numSamples) \<and>
            (2 \<le> numSamples \<longrightarrow>
               85 \<le> the (calculateLineOfSightClearance e cameraLon cameraLat lookAtLon lookAtLat 5 numSamples)))"
proof (intro conjI impI)
  show "calculateLineOfSightClearance e cameraLon cameraLat lookAtLon lookAtLat lookAtAlt numSamples =
           Some (max 0 (specifiedLineOfSightClearance e cameraLon cameraLat lookAtLon lookAtLat
                          lookAtAlt numSamples))"
    by (rule lineOfSight_result[OF assms])
next
  assume flat: "\<forall>lo la. queryTerrainElevation e lo la (Some (getTrackElevationNear e lo la)) = 0"
  have "sampleRequirement e cameraLon cameraLat lookAtLon lookAtLat 5 numSamples 0 = 80"
    by (simp add: flat_requirement[OF flat])
  then show "80 \<le> the (calculateLineOfSightClearance e cameraLon cameraLat lookAtLon lookAtLat 5 numSamples)"
    using sample_ge[OF keptSamples_zero[OF assms] assms, of e cameraLon cameraLat lookAtLon lookAtLat 5]
    by simp
next
  assume flat: "\<forall>lo la. queryTerrainElevation e lo la (Some (getTrackElevationNear e lo la)) = 0"
    and two: "2 \<le> numSamples"
  let ?i = "(numSamples + 15) div 16"
  have k: "?i \<in> set (keptSamples numSamples)" "1 / 16 \<le> real ?i / real numSamples"
    using sixteenth_sample[OF two] by simp_all
  have "real ?i / real numSamples < 0.98" using k(1) by (simp only: keptSamples_iff)
  then have "85 \<le> sampleRequirement e cameraLon cameraLat lookAtLon lookAtLat 5 numSamples ?i"
    using k(2) by (simp only: flat_requirement[OF flat] flat_value_85)
  then show "85 \<le> the (calculateLineOfSightClearance e cameraLon cameraLat lookAtLon lookAtLat 5 numSamples)"
    using sample_ge[OF k(1) assms, of e cameraLon cameraLat lookAtLon lookAtLat 5] by linarith
qed

theorem calculateLineOfSightClearance_max_witness:
  "(1::nat) \<le> 30 \<and>
   (\<forall>lo la. queryTerrainElevation (envOf []) lo la (Some (getTrackElevationNear (envOf []) lo la)) = 0) \<and>
   (2::nat) \<le> 30 \<and>
   85 \<le> the (calculateLineOfSightClearance (envOf []) 0 0 1 1 5 30)"
proof -
  have h: "(1::nat) \<le> 30" by simp
  have two: "(2::nat) \<le> 30" by simp
  have flat: "\<forall>lo la. queryTerrainElevation (envOf []) lo la
                 (Some (getTrackElevationNear (envOf []) lo la)) = 0"
    by (simp add: flat_envOf_empty)
  have "85 \<le> the (calculateLineOfSightClearance (envOf []) 0 0 1 1 5 30)"
    using flat two calculateLineOfSightClearance_max [OF h, of "envOf []" 0 0 1 1 5] by blast
  then show ?thesis using h two flat by blast
qed

text \<open>
  The claim as first stated fails twice. Over terrain at \<open>-200\<close> every requirement is
  negative and the result is \<open>0\<close>, not their maximum \<open>-120\<close>. Over flat terrain at \<open>0\<close>
  with one sample only the camera end is sampled and the result is \<open>80\<close>, below \<open>85\<close>.
\<close>

theorem calculateLineOfSightClearance_counterexample:
  "calculateLineOfSightClearance (envOf lowTrack) 0 0 0 0 5 1 = Some 0 \<and>
   specifiedLineOfSightClearance (envOf lowTrack) 0 0 0 0 5 1 = - 120 \<and>
   calculateLineOfSightClearance (envOf []) 0 0 0 0 5 1 = Some 80"
proof -
  have s: "specifiedLineOfSightClearance (envOf lowTrack) 0 0 0 0 5 1 = - 120"
    by (simp add: specifiedLineOfSightClearance_def keptSamples_1 low_requirement)
  have c: "calculateLineOfSightClearance (envOf lowTrack) 0 0 0 0 5 1 = Some 0"
    by (simp add: lineOfSight_result s[unfolded One_nat_def])
  have "sampleRequirement (envOf []) 0 0 0 0 5 1 0 = 80"
    by (simp add: sampleRequirement_def Let_def flat_envOf_empty minTerrainClearance_def)
  then have "specifiedLineOfSightClearance (envOf []) 0 0 0 0 5 1 = 80"
    by (simp add: specifiedLineOfSightClearance_def keptSamples_1)
  then have f: "calculateLineOfSightClearance (envOf []) 0 0 0 0 5 1 = Some 80"
    by (simp add: lineOfSight_result)
  show ?thesis using s c f by simp
qed

section \<open>What one frame computation changes\<close>

lemma smoothPosition_snd:
  "snd (smoothPosition p s) = s\<lparr>lastSmoothedPosition := Some (fst (smoothPosition p s))\<rparr>"
  by (simp add: smoothPosition_def Let_def split: option.splits)

lemma smoothBearing_snd:
  "snd (smoothBearing b s) =
     s\<lparr>lastBearing := Some (fst (smoothBearing b s)),
       bearingHistory := bearingHistory (snd (smoothBearing b s))\<rparr>"
  by (simp add: smoothBearing_def Let_def split: option.splits)

lemma smoothAltitude_snd:
  "snd (smoothAltitude a s) = s\<lparr>lastCameraAltitude := Some (fst (smoothAltitude a s))\<rparr>"
  by (simp add: smoothAltitude_def Let_def split: option.splits)

lemma initializeDistanceData_control:
  "controlFields (initializeDistanceData e s) = controlFields s"
  by (simp add: initializeDistanceData_def controlFields_def Let_def split_beta)

lemma interpolate_Some:
  "interpolate (Some p1) (Some p2) t =
     Inr \<lparr> lat = lat p1 + (lat p2 - lat p1) * t, lon = lon p1 + (lon p2 - lon p1) * t,
           ele = ele p1 + (ele p2 - ele p1) * t \<rparr>"
  by (simp add: interpolate_def)

lemma getPointAtProgress_shape:
  fixes e p s
  defines "s1 \<equiv> (if length (trackPoints e) < 2 \<or> distanceDataInitialized s then s
                   else initializeDistanceData e s)"
  shows "(\<exists>r. getPointAtProgress e p s = (r, s1) \<and> (\<forall>tp. r \<noteq> Inr (Some tp))) \<or>
         (\<exists>err rawPos. getPointAtProgress e p s = (Inl err, snd (smoothPosition rawPos s1))) \<or>
         (\<exists>rawPos b i. getPointAtProgress e p s =
            (Inr (Some \<lparr> position = fst (smoothPosition rawPos s1), rawPosition = rawPos,
                          bearing = fst (smoothBearing b (snd (smoothPosition rawPos s1))),
                          rawBearing = b, index = i \<rparr>),
             snd (smoothBearing b (snd (smoothPosition rawPos s1)))))"
proof (cases "length (trackPoints e) < 2")
  case True
  have "getPointAtProgress e p s = (Inr None, s)"
    unfolding getPointAtProgress_def Let_def by (simp only: True if_True)
  then show ?thesis using True by (simp add: s1_def)
next
  case long: False
  let ?s1 = "(if \<not> distanceDataInitialized s then initializeDistanceData e s else s)"
  let ?d = "max 0 (min 1 p) * totalDistance ?s1"
  have s1: "s1 = ?s1" using long by (simp add: s1_def)
  note cs = if_False if_True sum.case option.case prod.case
  show ?thesis
  proof (cases "findSegmentAtDistance ?s1 ?d")
    case (Inl err)
    have "getPointAtProgress e p s = (Inl err, ?s1)"
      unfolding getPointAtProgress_def Let_def by (simp only: long Inl cs)
    then show ?thesis unfolding s1 by simp
  next
    case (Inr i)
    show ?thesis
    proof (cases "nthOpt (trackPoints e) i")
      case None
      have "getPointAtProgress e p s = (Inr None, ?s1)"
        unfolding getPointAtProgress_def Let_def by (simp only: long Inr None cs)
      then show ?thesis unfolding s1 by simp
    next
      case p1: (Some point1)
      show ?thesis
      proof (cases "nthOpt (trackPoints e) (min (i + 1) (length (trackPoints e) - 1))")
        case None
        have "getPointAtProgress e p s = (Inr None, ?s1)"
          unfolding getPointAtProgress_def Let_def by (simp only: long Inr p1 None cs)
        then show ?thesis unfolding s1 by simp
      next
        case p2: (Some point2)
        show ?thesis
        proof (cases "cumulativeDistances ?s1")
          case None
          have "getPointAtProgress e p s = (Inl TypeError, ?s1)"
            unfolding getPointAtProgress_def Let_def by (simp only: long Inr p1 p2 None cs)
          then show ?thesis unfolding s1 by simp
        next
          case ds: (Some distances)
          obtain rawPos where raw: "interpolate (Some point1) (Some point2)
              (segmentFactor distances i ?d) = Inr rawPos"
            by (simp add: interpolate_Some)
          obtain cur s2 where sp: "smoothPosition rawPos ?s1 = (cur, s2)"
            by (cases "smoothPosition rawPos ?s1")
          show ?thesis
          proof (cases "calculateMeanDirectionBearing e s2 ?d")
            case (Inl err)
            have "getPointAtProgress e p s = (Inl err, s2)"
              unfolding getPointAtProgress_def Let_def
              by (simp only: long Inr p1 p2 ds raw sp Inl cs)
            then have "getPointAtProgress e p s = (Inl err, snd (smoothPosition rawPos s1))"
              unfolding s1 sp by simp
            then show ?thesis by blast
          next
            case m: (Inr meanB)
            show ?thesis
            proof (cases "positionAtDistance e s2 (min (totalDistance s2) (?d + 50))")
              case (Inl err)
              have "getPointAtProgress e p s = (Inl err, s2)"
                unfolding getPointAtProgress_def Let_def
                by (simp only: long Inr p1 p2 ds raw sp m Inl cs)
              then have "getPointAtProgress e p s = (Inl err, snd (smoothPosition rawPos s1))"
                unfolding s1 sp by simp
              then show ?thesis by blast
            next
              case q: (Inr ahead)
              let ?b = "blendBearings meanB (calculateBearing rawPos ahead)
                  (min 0.95 (0.80 + 0.015 * (max 1 (speed s2) - 1)))"
              obtain sb s3 where sm: "smoothBearing ?b s2 = (sb, s3)"
                by (cases "smoothBearing ?b s2")
              have "getPointAtProgress e p s =
                  (Inr (Some \<lparr> position = cur, rawPosition = rawPos, bearing = sb,
                                rawBearing = ?b, index = i \<rparr>), s3)"
                unfolding getPointAtProgress_def Let_def
                by (simp only: long Inr p1 p2 ds raw sp m q sm cs)
              then have "getPointAtProgress e p s =
                  (Inr (Some \<lparr> position = fst (smoothPosition rawPos s1), rawPosition = rawPos,
                          bearing = fst (smoothBearing ?b (snd (smoothPosition rawPos s1))),
                          rawBearing = ?b, index = i \<rparr>),
                   snd (smoothBearing ?b (snd (smoothPosition rawPos s1))))"
                unfolding s1 sp snd_conv fst_conv sm by simp
              then show ?thesis by blast
            qed
          qed
        qed
      qed
    qed
  qed
qed

lemma getPointAtProgress_control:
  "controlFields (snd (getPointAtProgress e p s)) = controlFields s"
proof -
  have a: "\<And>q t. controlFields (snd (smoothPosition q t)) = controlFields t"
    by (subst smoothPosition_snd) (simp add: controlFields_def)
  have b: "\<And>q t. controlFields (snd (smoothBearing q t)) = controlFields t"
    by (subst smoothBearing_snd) (simp add: controlFields_def)
  have c: "controlFields (if length (trackPoints e) < 2 \<or> distanceDataInitialized s then s
                   else initializeDistanceData e s) = controlFields s"
    by (simp add: initializeDistanceData_control)
  show ?thesis using getPointAtProgress_shape[of e p s] a b c by (elim disjE exE conjE) simp_all
qed

lemma getCameraPosition_snd:
  "\<exists>a. snd (getCameraPosition e tp s) = s\<lparr>lastCameraAltitude := a\<rparr>"
proof (cases "mode s = ''follow''")
  case True
  have "\<exists>x. snd (getCameraPosition e tp s) = snd (smoothAltitude x s)"
    unfolding getCameraPosition_def Let_def split_beta if_P[OF True] snd_conv
    by (rule exI) (rule refl)
  then show ?thesis using smoothAltitude_snd by metis
next
  case False
  have "snd (getCameraPosition e tp s) = s"
    unfolding getCameraPosition_def Let_def split_beta if_not_P[OF False]
    by (simp only: if_distrib[of snd] snd_conv if_cancel)
  then have "snd (getCameraPosition e tp s) = s\<lparr>lastCameraAltitude := lastCameraAltitude s\<rparr>"
    by simp
  then show ?thesis by blast
qed

lemma getCameraPosition_control:
  "controlFields (snd (getCameraPosition e tp s)) = controlFields s"
proof -
  obtain a where "snd (getCameraPosition e tp s) = s\<lparr>lastCameraAltitude := a\<rparr>"
    using getCameraPosition_snd by blast
  then show ?thesis by (simp add: controlFields_def)
qed

section \<open>Playback controller\<close>

lemma controlFields_progress: "controlFields a = controlFields b \<Longrightarrow> progress a = progress b"
  by (simp add: controlFields_def)

lemma controlFields_isPlaying: "controlFields a = controlFields b \<Longrightarrow> isPlaying a = isPlaying b"
  by (simp add: controlFields_def)

lemma stepToProgress_control:
  "controlFields (snd (stepToProgress e p s)) = controlFields (s\<lparr>progress := p\<rparr>)"
proof -
  let ?s1 = "(if \<not> distanceDataInitialized s then initializeDistanceData e s else s)"
  let ?s2 = "(if p = 0 \<or> p < progress ?s1
                then ?s1\<lparr>lastCameraAltitude := None, lastBearing := None,
                       bearingHistory := [], lastSmoothedPosition := None\<rparr>
                else ?s1)"
  let ?s3 = "?s2\<lparr>progress := p\<rparr>"
  have c1: "controlFields ?s1 = controlFields s"
    by (simp add: initializeDistanceData_control)
  have c3: "controlFields ?s3 = controlFields (s\<lparr>progress := p\<rparr>)"
    using c1 by (simp add: controlFields_def)
  obtain r s4 where g: "getPointAtProgress e p ?s3 = (r, s4)"
    by (cases "getPointAtProgress e p ?s3")
  have c4: "controlFields s4 = controlFields ?s3"
    using getPointAtProgress_control[of e p ?s3] g by simp
  have "snd (stepToProgress e p s) = s4 \<or>
        (\<exists>tp. snd (stepToProgress e p s) = snd (getCameraPosition e tp s4))"
    unfolding stepToProgress_def Let_def g
    by (cases r) (auto split: option.splits)
  then show ?thesis using c3 c4 getCameraPosition_control by auto
qed

lemma stepToProgress_progress: "progress (snd (stepToProgress e p s)) = p"
  using controlFields_progress[OF stepToProgress_control[of e p s]] by simp

lemma clamp_idem: "max 0 (min 1 (max 0 (min 1 p))) = max 0 (min (1::real) p)"
  by simp

lemma getPointAtProgress_clamp:
  "getPointAtProgress e (max 0 (min 1 p)) s = getPointAtProgress e p s"
  unfolding getPointAtProgress_def Let_def clamp_idem by (rule refl)

lemma initializeDistanceData_clear:
  "initializeDistanceData e (s\<lparr>lastCameraAltitude := a, lastBearing := b,
       bearingHistory := h, lastSmoothedPosition := q\<rparr>) =
   (initializeDistanceData e s)\<lparr>lastCameraAltitude := a, lastBearing := b,
       bearingHistory := h, lastSmoothedPosition := q\<rparr>"
  by (simp add: initializeDistanceData_def Let_def split_beta)

lemma initializeDistanceData_progress: "progress (initializeDistanceData e s) = progress s"
  by (simp add: initializeDistanceData_def Let_def split_beta)

lemma stepToProgress_forgets:
  assumes "p = 0 \<or> p < progress s"
  shows "stepToProgress e p (s\<lparr>lastCameraAltitude := a, lastBearing := b,
           bearingHistory := h, lastSmoothedPosition := q\<rparr>) = stepToProgress e p s"
proof -
  let ?t = "s\<lparr>lastCameraAltitude := a, lastBearing := b,
           bearingHistory := h, lastSmoothedPosition := q\<rparr>"
  let ?s1 = "(if \<not> distanceDataInitialized s then initializeDistanceData e s else s)"
  let ?t1 = "(if \<not> distanceDataInitialized ?t then initializeDistanceData e ?t else ?t)"
  have t1: "?t1 = ?s1\<lparr>lastCameraAltitude := a, lastBearing := b,
           bearingHistory := h, lastSmoothedPosition := q\<rparr>"
    by (simp add: initializeDistanceData_clear)
  have ps: "p = 0 \<or> p < progress ?s1" using assms by (simp add: initializeDistanceData_progress)
  have pt: "p = 0 \<or> p < progress ?t1" using assms by (simp add: initializeDistanceData_progress)
  have eq: "(?t1\<lparr>lastCameraAltitude := None, lastBearing := None,
                       bearingHistory := [], lastSmoothedPosition := None\<rparr>)\<lparr>progress := p\<rparr>
          = (?s1\<lparr>lastCameraAltitude := None, lastBearing := None,
                       bearingHistory := [], lastSmoothedPosition := None\<rparr>)\<lparr>progress := p\<rparr>"
    unfolding t1 by simp
  show ?thesis
    unfolding stepToProgress_def Let_def if_P[OF ps] if_P[OF pt] eq by (rule refl)
qed

lemma stepToProgress_cleared:
  assumes "p = 0 \<or> p < progress s"
  shows "stepToProgress e p s = stepToProgress e p (clearSmoothing s)"
  unfolding clearSmoothing_def using stepToProgress_forgets[OF assms, symmetric] .

lemma fresh_seeds:
  assumes "lastBearing s = None" "lastSmoothedPosition s = None"
    and "getPointAtProgress e p s = (Inr (Some tp), s')"
  shows "position tp = rawPosition tp \<and> bearing tp = rawBearing tp \<and>
         lastSmoothedPosition s' = Some (rawPosition tp) \<and>
         lastBearing s' = Some (rawBearing tp) \<and> bearingHistory s' = [rawBearing tp]"
proof -
  let ?s1 = "(if length (trackPoints e) < 2 \<or> distanceDataInitialized s then s
                   else initializeDistanceData e s)"
  have n1: "lastBearing ?s1 = None" "lastSmoothedPosition ?s1 = None"
    using assms(1,2) by (simp_all add: initializeDistanceData_def Let_def split_beta)
  have sp: "\<And>q. smoothPosition q ?s1 = (q, ?s1\<lparr>lastSmoothedPosition := Some q\<rparr>)"
    using n1(2) by (simp add: smoothPosition_def)
  have sb: "\<And>q b. smoothBearing b (?s1\<lparr>lastSmoothedPosition := Some q\<rparr>) =
      (b, ?s1\<lparr>lastSmoothedPosition := Some q, lastBearing := Some b, bearingHistory := [b]\<rparr>)"
    using n1(1) by (simp add: smoothBearing_def)
  from getPointAtProgress_shape[of e p s] assms(3)
  obtain rawPos b i where
    "\<lparr> position = fst (smoothPosition rawPos ?s1), rawPosition = rawPos,
        bearing = fst (smoothBearing b (snd (smoothPosition rawPos ?s1))),
        rawBearing = b, index = i \<rparr> = tp \<and>
     snd (smoothBearing b (snd (smoothPosition rawPos ?s1))) = s'"
    by (elim disjE exE conjE) simp_all
  then have "tp = \<lparr> position = rawPos, rawPosition = rawPos, bearing = b, rawBearing = b, index = i \<rparr>"
    and "s' = ?s1\<lparr>lastSmoothedPosition := Some rawPos, lastBearing := Some b, bearingHistory := [b]\<rparr>"
    unfolding sp fst_conv snd_conv sb by simp_all
  then show ?thesis by simp
qed

lemma segmentLoop_range:
  "left < right \<Longrightarrow>
   left \<le> segmentLoop ds d left right \<and> segmentLoop ds d left right < right"
proof (induction ds d left right rule: segmentLoop.induct)
  case (1 distances targetDistance left right)
  show ?case
  proof (cases "left + 1 < right")
    case False
    have "segmentLoop distances targetDistance left right = left"
      using False by (subst segmentLoop.simps) simp
    then show ?thesis using "1.prems" by simp
  next
    case True
    let ?mid = "(left + right) div 2"
    have m: "left < ?mid" "?mid < right" using True by auto
    show ?thesis
    proof (cases "distances ! ?mid \<le> targetDistance")
      case le: True
      have "?mid \<le> segmentLoop distances targetDistance ?mid right \<and>
            segmentLoop distances targetDistance ?mid right < right"
        using "1.IH"(1)[OF True refl le m(2)] .
      then show ?thesis using True le m by (subst (1 2) segmentLoop.simps) (simp add: Let_def)
    next
      case gt: False
      have "left \<le> segmentLoop distances targetDistance left ?mid \<and>
            segmentLoop distances targetDistance left ?mid < ?mid"
        using "1.IH"(2)[OF True refl gt m(1)] .
      then show ?thesis using True gt m by (subst (1 2) segmentLoop.simps) (simp add: Let_def)
    qed
  qed
qed

text \<open>The index fits the track: one cumulative distance per point.\<close>

lemma positionAtDistance_ok:
  assumes "cumulativeDistances s = Some ds" "length ds = length (trackPoints e)"
    "2 \<le> length (trackPoints e)"
  shows "\<exists>q. positionAtDistance e s d = Inr q"
proof -
  let ?i = "segmentLoop ds d 0 (length ds - 1)"
  have "0 \<le> ?i \<and> ?i < length ds - 1" using assms(2,3) by (intro segmentLoop_range) simp
  then have i: "?i < length (trackPoints e)" "min (?i + 1) (length (trackPoints e) - 1) < length (trackPoints e)"
    using assms(2,3) by simp_all
  have f: "findSegmentAtDistance s d = Inr ?i" using assms(1) by (simp add: findSegmentAtDistance_def)
  show ?thesis
    unfolding positionAtDistance_def Let_def f assms(1)
    using i by (simp add: nthOpt_def interpolate_Some)
qed

lemma calculateMeanDirectionBearing_ok:
  assumes "cumulativeDistances s = Some ds" "length ds = length (trackPoints e)"
    "2 \<le> length (trackPoints e)"
  shows "\<exists>b. calculateMeanDirectionBearing e s d = Inr b"
proof -
  let ?look = "min 1200 (400 * sqrt (max 1 (speed s)))"
  obtain q1 where q1: "positionAtDistance e s (max 0 (d - ?look)) = Inr q1"
    using positionAtDistance_ok[OF assms] by blast
  obtain q2 where q2: "positionAtDistance e s (min (totalDistance s) (d + ?look)) = Inr q2"
    using positionAtDistance_ok[OF assms] by blast
  show ?thesis
    unfolding calculateMeanDirectionBearing_def Let_def q1 q2 by simp
qed

lemma getPointAtProgress_ok:
  assumes "2 \<le> length (trackPoints e)"
    and "distanceDataInitialized s \<longrightarrow>
           (\<exists>ds. cumulativeDistances s = Some ds \<and> length ds = length (trackPoints e))"
  shows "\<exists>tp s'. getPointAtProgress e p s = (Inr (Some tp), s')"
proof -
  have long: "\<not> length (trackPoints e) < 2" using assms(1) by simp
  let ?s1 = "(if \<not> distanceDataInitialized s then initializeDistanceData e s else s)"
  let ?d = "max 0 (min 1 p) * totalDistance ?s1"
  obtain ds where ds: "cumulativeDistances ?s1 = Some ds" "length ds = length (trackPoints e)"
    using assms(2) initializeDistanceData_index[OF assms(1), of s] by (cases "distanceDataInitialized s") auto
  let ?i = "segmentLoop ds ?d 0 (length ds - 1)"
  have "0 \<le> ?i \<and> ?i < length ds - 1" using ds(2) assms(1) by (intro segmentLoop_range) simp
  then have i: "?i < length (trackPoints e)"
    "min (?i + 1) (length (trackPoints e) - 1) < length (trackPoints e)"
    using ds(2) assms(1) by simp_all
  have f: "findSegmentAtDistance ?s1 ?d = Inr ?i" using ds(1) by (simp add: findSegmentAtDistance_def)
  obtain point1 where p1: "nthOpt (trackPoints e) ?i = Some point1"
    using i(1) by (simp add: nthOpt_def)
  obtain point2 where p2: "nthOpt (trackPoints e) (min (?i + 1) (length (trackPoints e) - 1)) = Some point2"
    using i(2) by (simp add: nthOpt_def)
  obtain rawPos where raw: "interpolate (Some point1) (Some point2)
              (segmentFactor ds ?i ?d) = Inr rawPos"
    by (simp add: interpolate_Some)
  obtain cur s2 where sp: "smoothPosition rawPos ?s1 = (cur, s2)"
    by (cases "smoothPosition rawPos ?s1")
  have "s2 = ?s1\<lparr>lastSmoothedPosition := Some (fst (smoothPosition rawPos ?s1))\<rparr>"
    using smoothPosition_snd[of rawPos ?s1] sp by simp
  then have ds2: "cumulativeDistances s2 = Some ds" using ds(1) by simp
  obtain meanB where m: "calculateMeanDirectionBearing e s2 ?d = Inr meanB"
    using calculateMeanDirectionBearing_ok[OF ds2 ds(2) assms(1)] by blast
  obtain ahead where q: "positionAtDistance e s2 (min (totalDistance s2) (?d + 50)) = Inr ahead"
    using positionAtDistance_ok[OF ds2 ds(2) assms(1)] by blast
  let ?b = "blendBearings meanB (calculateBearing rawPos ahead)
                  (min 0.95 (0.80 + 0.015 * (max 1 (speed s2) - 1)))"
  obtain sb s3 where sm: "smoothBearing ?b s2 = (sb, s3)"
    by (cases "smoothBearing ?b s2")
  have "getPointAtProgress e p s =
          (Inr (Some \<lparr> position = cur, rawPosition = rawPos, bearing = sb,
                        rawBearing = ?b, index = ?i \<rparr>), s3)"
    unfolding getPointAtProgress_def Let_def
    by (simp only: long f p1 p2 ds(1) raw sp m q sm if_False if_True sum.case option.case prod.case)
  then show ?thesis by blast
qed

lemma stepToProgress_frame:
  assumes "p = 0 \<or> p < progress s"
  shows "stepToProgress e p s =
     (case getPointAtProgress e p
             ((if \<not> distanceDataInitialized s then initializeDistanceData e s else s)
                \<lparr>lastCameraAltitude := None, lastBearing := None,
                  bearingHistory := [], lastSmoothedPosition := None, progress := p\<rparr>) of
           (Inl err, s4) \<Rightarrow> (Some err, s4)
         | (Inr None, s4) \<Rightarrow> (None, s4)
         | (Inr (Some tp), s4) \<Rightarrow>
               (if mapObj e = None then Some TypeError else None,
                snd (getCameraPosition e tp s4)))"
proof -
  let ?s1 = "(if \<not> distanceDataInitialized s then initializeDistanceData e s else s)"
  have ps: "p = 0 \<or> p < progress ?s1" using assms by (simp add: initializeDistanceData_progress)
  show ?thesis unfolding stepToProgress_def Let_def if_P[OF ps] by (rule refl)
qed

lemma stepToProgress_seeds:
  assumes "p = 0 \<or> p < progress s"
    and g: "getPointAtProgress e p
             ((if \<not> distanceDataInitialized s then initializeDistanceData e s else s)
                \<lparr>lastCameraAltitude := None, lastBearing := None,
                  bearingHistory := [], lastSmoothedPosition := None, progress := p\<rparr>)
            = (Inr (Some tp), s4)"
  shows "position tp = rawPosition tp \<and> bearing tp = rawBearing tp \<and>
         lastSmoothedPosition (snd (stepToProgress e p s)) = Some (rawPosition tp) \<and>
         lastBearing (snd (stepToProgress e p s)) = Some (rawBearing tp) \<and>
         bearingHistory (snd (stepToProgress e p s)) = [rawBearing tp]"
proof -
  let ?c = "(if \<not> distanceDataInitialized s then initializeDistanceData e s else s)
                \<lparr>lastCameraAltitude := None, lastBearing := None,
                  bearingHistory := [], lastSmoothedPosition := None, progress := p\<rparr>"
  have n: "lastBearing ?c = None" "lastSmoothedPosition ?c = None" by simp_all
  note f = fresh_seeds[OF n g]
  have "snd (stepToProgress e p s) = snd (getCameraPosition e tp s4)"
    unfolding stepToProgress_frame[OF assms(1)] g by simp
  moreover obtain a where "snd (getCameraPosition e tp s4) = s4\<lparr>lastCameraAltitude := a\<rparr>"
    using getCameraPosition_snd by blast
  ultimately have "snd (stepToProgress e p s) = s4\<lparr>lastCameraAltitude := a\<rparr>" by simp
  then show ?thesis using f by simp
qed

lemma start_runs:
  assumes "\<not> isPlaying s" "2 \<le> length (trackPoints e)"
  shows "start e t1 t2 s =
     (case animate e None t2
             ((initializeDistanceData e s)
                \<lparr>lastCameraAltitude := None, lastBearing := None,
                  bearingHistory := [], lastSmoothedPosition := None,
                  isPlaying := True, isPaused := False, progress := 0,
                  lastTimestamp := t1\<rparr>) of
           (None, s4) \<Rightarrow> (Inr [], s4)
         | (Some err, s4) \<Rightarrow> (Inl err, s4))"
proof -
  have long: "\<not> length (trackPoints e) < 2" using assms(2) by simp
  show ?thesis
    unfolding start_def Let_def if_not_P[OF assms(1)] if_not_P[OF long] by (rule refl)
qed

text \<open>One animation frame without callbacks, on an index that fits the track.\<close>

lemma animate_plain_shape:
  assumes "isPlaying s" "\<not> isPaused s"
    and "onProgress e = None" "onFrame e = None" "onComplete e = None"
    and "2 \<le> length (trackPoints e)"
    and "distanceDataInitialized s \<longrightarrow>
           (\<exists>ds. cumulativeDistances s = Some ds \<and> length ds = length (trackPoints e))"
  shows "\<exists>tp s3 a.
           getPointAtProgress e
             (min 1 (progress s + (if totalDistance s > 0
                then 160 * speed s * ((now - lastTimestamp s) / 1000) / totalDistance s else 0)))
             (s\<lparr>lastTimestamp := now,
                progress := min 1 (progress s + (if totalDistance s > 0
                then 160 * speed s * ((now - lastTimestamp s) / 1000) / totalDistance s else 0))\<rparr>)
             = (Inr (Some tp), s3) \<and>
           animate e None now s =
             (None,
              if 1 \<le> min 1 (progress s + (if totalDistance s > 0
                then 160 * speed s * ((now - lastTimestamp s) / 1000) / totalDistance s else 0))
              then s3\<lparr>lastCameraAltitude := a, isPlaying := False\<rparr>
              else s3\<lparr>lastCameraAltitude := a, animationFrame := Some (nextFrameHandle e)\<rparr>)"
proof -
  let ?P = "min 1 (progress s + (if totalDistance s > 0
                                then 160 * speed s * ((now - lastTimestamp s) / 1000) / totalDistance s
                                else 0))"
  let ?s2 = "s\<lparr>lastTimestamp := now, progress := ?P\<rparr>"
  have w: "distanceDataInitialized ?s2 \<longrightarrow>
           (\<exists>ds. cumulativeDistances ?s2 = Some ds \<and> length ds = length (trackPoints e))"
    using assms(7) by simp
  obtain tp s3 where g: "getPointAtProgress e ?P ?s2 = (Inr (Some tp), s3)"
    using getPointAtProgress_ok[OF assms(6) w] by blast
  have c3: "controlFields s3 = controlFields ?s2"
    using getPointAtProgress_control[of e ?P ?s2] g by simp
  let ?s4 = "snd (getCameraPosition e tp s3)"
  obtain a where a: "?s4 = s3\<lparr>lastCameraAltitude := a\<rparr>"
    using getCameraPosition_snd by blast
  define P where "P = ?P"
  have p3: "progress s3 = P" using c3 by (simp add: controlFields_def P_def)
  have pl': "isPlaying s = True" "isPaused s = False" using assms(1,2) by simp_all
  let ?r1 = "s\<lparr>lastTimestamp := now\<rparr>"
  let ?r2 = "?r1\<lparr>progress := min 1 (progress ?r1 +
      (if 0 < totalDistance ?r1
       then 160 * speed ?r1 * ((now - lastTimestamp s) / 1000) / totalDistance ?r1
       else 0))\<rparr>"
  have e1: "?r2 = ?s2" by simp
  have e2: "progress ?s2 = ?P" by simp
  have rw: "getPointAtProgress e (progress ?r2) ?r2 = (Inr (Some tp), s3)"
    unfolding e1 e2 by (rule g)
  have "animate e None now s =
          (if 1 \<le> progress ?s4 then (None, ?s4\<lparr>isPlaying := False\<rparr>)
           else (None, ?s4\<lparr>animationFrame := Some (nextFrameHandle e)\<rparr>))"
    unfolding animate_def Let_def
    by (simp only: pl' assms(3,4,5) rw simp_thms if_False if_True
          option.case prod.case sum.case Let_def)
  then have "animate e None now s =
          (if 1 \<le> progress (s3\<lparr>lastCameraAltitude := a\<rparr>)
           then (None, s3\<lparr>lastCameraAltitude := a\<rparr>\<lparr>isPlaying := False\<rparr>)
           else (None, s3\<lparr>lastCameraAltitude := a\<rparr>\<lparr>animationFrame := Some (nextFrameHandle e)\<rparr>))"
    unfolding a .
  then have "animate e None now s =
          (None, if 1 \<le> P then s3\<lparr>lastCameraAltitude := a, isPlaying := False\<rparr>
           else s3\<lparr>lastCameraAltitude := a, animationFrame := Some (nextFrameHandle e)\<rparr>)"
    using p3 by (cases "1 \<le> P") simp_all
  then show ?thesis using g unfolding P_def by blast
qed

lemma start_plain_full:
  assumes "\<not> isPlaying s"
    and "onProgress e = None" "onFrame e = None" "onComplete e = None"
    and "2 \<le> length (trackPoints e)"
  shows "fst (start e t1 t2 s) = Inr [] \<and>
         progress (snd (start e t1 t2 s)) =
           min 1 (if 0 < totalDistance (initializeDistanceData e s)
                  then 160 * speed s * ((t2 - t1) / 1000) / totalDistance (initializeDistanceData e s)
                  else 0) \<and>
         isPlaying (snd (start e t1 t2 s)) = (progress (snd (start e t1 t2 s)) < 1) \<and>
         \<not> isPaused (snd (start e t1 t2 s)) \<and>
         lastTimestamp (snd (start e t1 t2 s)) = t2 \<and>
         (\<exists>b. lastBearing (snd (start e t1 t2 s)) = Some b \<and>
              bearingHistory (snd (start e t1 t2 s)) = [b]) \<and>
         lastSmoothedPosition (snd (start e t1 t2 s)) \<noteq> None"
proof -
  let ?s1 = "initializeDistanceData e s"
  let ?s3 = "?s1\<lparr>lastCameraAltitude := None, lastBearing := None,
                  bearingHistory := [], lastSmoothedPosition := None,
                  isPlaying := True, isPaused := False, progress := 0,
                  lastTimestamp := t1\<rparr>"
  obtain ds where ds: "cumulativeDistances ?s1 = Some ds" "length ds = length (trackPoints e)"
    using initializeDistanceData_index[OF assms(5), of s] by blast
  have w: "distanceDataInitialized ?s3 \<longrightarrow>
           (\<exists>ds. cumulativeDistances ?s3 = Some ds \<and> length ds = length (trackPoints e))"
    using ds by simp
  have pl: "isPlaying ?s3" "\<not> isPaused ?s3" by simp_all
  have sp: "speed ?s1 = speed s" by (simp add: initializeDistanceData_def Let_def split_beta)
  define P where "P = min 1 (if 0 < totalDistance ?s1
                  then 160 * speed s * ((t2 - t1) / 1000) / totalDistance ?s1 else 0)"
  have P3: "min 1 (progress ?s3 + (if totalDistance ?s3 > 0
                then 160 * speed ?s3 * ((t2 - lastTimestamp ?s3) / 1000) / totalDistance ?s3 else 0))
            = P"
    by (simp add: P_def sp)
  from animate_plain_shape[OF pl assms(2,3,4,5) w, of t2]
  obtain tp u a where
    g: "getPointAtProgress e P (?s3\<lparr>lastTimestamp := t2, progress := P\<rparr>) = (Inr (Some tp), u)"
    and an: "animate e None t2 ?s3 =
             (None, if 1 \<le> P then u\<lparr>lastCameraAltitude := a, isPlaying := False\<rparr>
                    else u\<lparr>lastCameraAltitude := a, animationFrame := Some (nextFrameHandle e)\<rparr>)"
    unfolding P3 by blast
  have n: "lastBearing (?s3\<lparr>lastTimestamp := t2, progress := P\<rparr>) = None"
    "lastSmoothedPosition (?s3\<lparr>lastTimestamp := t2, progress := P\<rparr>) = None"
    by simp_all
  note f = fresh_seeds[OF n g]
  have c: "controlFields u = controlFields (?s3\<lparr>lastTimestamp := t2, progress := P\<rparr>)"
    using getPointAtProgress_control[of e P "?s3\<lparr>lastTimestamp := t2, progress := P\<rparr>"] g by simp
  then have cu: "progress u = P" "isPlaying u" "\<not> isPaused u" "lastTimestamp u = t2"
    by (simp_all add: controlFields_def)
  have st: "start e t1 t2 s =
             (Inr [], if 1 \<le> P then u\<lparr>lastCameraAltitude := a, isPlaying := False\<rparr>
                    else u\<lparr>lastCameraAltitude := a, animationFrame := Some (nextFrameHandle e)\<rparr>)"
    unfolding start_runs[OF assms(1,5)] an by simp
  show ?thesis unfolding st P_def[symmetric] using cu f by (cases "1 \<le> P") auto
qed

lemma start_forgets:
  assumes "\<not> isPlaying s" "2 \<le> length (trackPoints e)"
  shows "start e t1 t2 (s\<lparr>isPaused := z, lastTimestamp := ts, progress := x,
           lastCameraAltitude := a, lastBearing := b, bearingHistory := h,
           lastSmoothedPosition := q\<rparr>) = start e t1 t2 s"
proof -
  let ?t = "s\<lparr>isPaused := z, lastTimestamp := ts, progress := x,
           lastCameraAltitude := a, lastBearing := b, bearingHistory := h,
           lastSmoothedPosition := q\<rparr>"
  have np: "\<not> isPlaying ?t" using assms(1) by simp
  have long: "\<not> length (trackPoints e) < 2" using assms(2) by simp
  have eq: "(initializeDistanceData e ?t)\<lparr>lastCameraAltitude := None, lastBearing := None,
                        bearingHistory := [], lastSmoothedPosition := None\<rparr>
               \<lparr>isPlaying := True, isPaused := False, progress := 0, lastTimestamp := t1\<rparr>
          = (initializeDistanceData e s)\<lparr>lastCameraAltitude := None, lastBearing := None,
                        bearingHistory := [], lastSmoothedPosition := None\<rparr>
               \<lparr>isPlaying := True, isPaused := False, progress := 0, lastTimestamp := t1\<rparr>"
    by (simp add: initializeDistanceData_eq[OF assms(2)])
  show ?thesis
    unfolding start_def Let_def if_not_P[OF np] if_not_P[OF assms(1)] if_not_P[OF long] eq
    by (rule refl)
qed

lemma start_cleared:
  assumes "\<not> isPlaying s" "2 \<le> length (trackPoints e)"
  shows "start e t1 t2 s = start e t1 t2 (clearSmoothing s)"
proof -
  have c: "s\<lparr>isPaused := isPaused s, lastTimestamp := lastTimestamp s,
           progress := progress s, lastCameraAltitude := None, lastBearing := None,
           bearingHistory := [], lastSmoothedPosition := None\<rparr> = clearSmoothing s"
    by (simp add: clearSmoothing_def)
  have "start e t1 t2 (s\<lparr>isPaused := isPaused s, lastTimestamp := lastTimestamp s,
           progress := progress s, lastCameraAltitude := None, lastBearing := None,
           bearingHistory := [], lastSmoothedPosition := None\<rparr>) = start e t1 t2 s"
    by (rule start_forgets[OF assms])
  then show ?thesis unfolding c by simp
qed

lemma start_short:
  "length (trackPoints e) < 2 \<Longrightarrow>
   start e t1 t2 s =
     (Inr (if isPlaying s then [] else [''Not enough track points for animation'']), s)"
  by (simp add: start_def Let_def)

lemma start_ignored: "isPlaying s \<Longrightarrow> start e t1 t2 s = (Inr [], s)"
  by (simp add: start_def)

lemma shortTrack_long: "2 \<le> length (trackPoints (envOf shortTrack))"
  by (simp add: envOf_def shortTrack_def)

lemma envOf_callbacks:
  "onProgress (envOf ps) = None" "onFrame (envOf ps) = None" "onComplete (envOf ps) = None"
  by (simp_all add: envOf_def)

lemma start_shortTrack:
  assumes "\<not> isPlaying s"
  shows "isPlaying (snd (start (envOf shortTrack) t1 t2 s)) =
           (\<not> 1 \<le> 160 * speed s * ((t2 - t1) / 1000) / (6371 * pi / 180))"
proof -
  have d: "totalDistance (initializeDistanceData (envOf shortTrack) s) = 6371 * pi / 180"
    by (simp add: shortTrack_index)
  have p: "0 < 6371 * pi / 180" using pi_gt_zero by simp
  note f = start_plain_full[OF assms envOf_callbacks shortTrack_long, of t1 t2, unfolded d]
  have "progress (snd (start (envOf shortTrack) t1 t2 s)) =
          min 1 (160 * speed s * ((t2 - t1) / 1000) / (6371 * pi / 180))"
    using f p by simp
  moreover have "isPlaying (snd (start (envOf shortTrack) t1 t2 s)) =
          (progress (snd (start (envOf shortTrack) t1 t2 s)) < 1)"
    using f by blast
  ultimately show ?thesis by auto
qed

text \<open>
  C4, as amended. \<open>getPointAtProgress\<close> clamps its argument to the range from \<open>0\<close> to
  \<open>1\<close> before it turns it into a distance, so it computes the same for \<open>p\<close> and for the
  clamped \<open>p\<close>, and it leaves the stored progress as it is. \<open>stepToProgress(p)\<close> stores
  \<open>p\<close> itself, unclamped: afterwards the stored progress is \<open>p\<close>, inside the range exactly
  when \<open>p\<close> is.
\<close>

theorem stepToProgress_unclamped:
  "getPointAtProgress e p s = getPointAtProgress e (max 0 (min 1 p)) s \<and>
   progress (snd (getPointAtProgress e p s)) = progress s \<and>
   progress (snd (stepToProgress e p s)) = p"
  using getPointAtProgress_clamp[of e p s]
    controlFields_progress[OF getPointAtProgress_control[of e p s]]
    stepToProgress_progress[of e p s]
  by simp


text \<open>After \<open>stepToProgress(2)\<close> the stored progress is \<open>2\<close>.\<close>

theorem stepToProgress_unclamped_counterexample:
  "progress (snd (stepToProgress (envOf shortTrack) 2 constructor)) = 2 \<and> \<not> (2::real) \<le> 1"
  using stepToProgress_progress[of "envOf shortTrack" 2 constructor] by simp


text \<open>
  C5. \<open>stepToProgress(p)\<close> stores \<open>p\<close> as the progress. When \<open>p\<close> is \<open>0\<close> or less than
  the stored progress, it sets \<open>lastCameraAltitude\<close>, \<open>lastBearing\<close> and
  \<open>lastSmoothedPosition\<close> to \<open>null\<close> and empties \<open>bearingHistory\<close> before the frame is
  computed: the call is the frame computation on that cleared state. So its outcome does
  not depend on the smoothing state from before, and when the frame yields a track
  position the smoothed position and bearing are the raw ones and the history left
  behind holds the raw bearing alone. \<open>start\<close>, when it runs, writes the same four
  fields before its first frame.
\<close>

theorem stepToProgress_resets:
  "progress (snd (stepToProgress e p s)) = p \<and>
   (p = 0 \<or> p < progress s \<longrightarrow>
      stepToProgress e p s =
        (case getPointAtProgress e p
                ((if \<not> distanceDataInitialized s then initializeDistanceData e s else s)
                   \<lparr>lastCameraAltitude := None, lastBearing := None,
                     bearingHistory := [], lastSmoothedPosition := None, progress := p\<rparr>) of
              (Inl err, s4) \<Rightarrow> (Some err, s4)
            | (Inr None, s4) \<Rightarrow> (None, s4)
            | (Inr (Some tp), s4) \<Rightarrow>
                  (if mapObj e = None then Some TypeError else None,
                   snd (getCameraPosition e tp s4))) \<and>
      stepToProgress e p s = stepToProgress e p (clearSmoothing s) \<and>
      (\<forall>a b h q. stepToProgress e p (s\<lparr>lastCameraAltitude := a, lastBearing := b,
           bearingHistory := h, lastSmoothedPosition := q\<rparr>) = stepToProgress e p s) \<and>
      (\<forall>tp s4.
         getPointAtProgress e p
                ((if \<not> distanceDataInitialized s then initializeDistanceData e s else s)
                   \<lparr>lastCameraAltitude := None, lastBearing := None,
                     bearingHistory := [], lastSmoothedPosition := None, progress := p\<rparr>)
           = (Inr (Some tp), s4) \<longrightarrow>
         position tp = rawPosition tp \<and> bearing tp = rawBearing tp \<and>
         lastSmoothedPosition (snd (stepToProgress e p s)) = Some (rawPosition tp) \<and>
         lastBearing (snd (stepToProgress e p s)) = Some (rawBearing tp) \<and>
         bearingHistory (snd (stepToProgress e p s)) = [rawBearing tp])) \<and>
   (\<not> isPlaying s \<and> 2 \<le> length (trackPoints e) \<longrightarrow>
      start e t1 t2 s =
        (case animate e None t2
                ((initializeDistanceData e s)
                   \<lparr>lastCameraAltitude := None, lastBearing := None,
                     bearingHistory := [], lastSmoothedPosition := None,
                     isPlaying := True, isPaused := False, progress := 0,
                     lastTimestamp := t1\<rparr>) of
              (None, s4) \<Rightarrow> (Inr [], s4)
            | (Some err, s4) \<Rightarrow> (Inl err, s4)) \<and>
      start e t1 t2 s = start e t1 t2 (clearSmoothing s)) \<and>
   (\<forall>u tp u'. lastBearing u = None \<and> lastSmoothedPosition u = None \<and>
        getPointAtProgress e p u = (Inr (Some tp), u') \<longrightarrow>
        position tp = rawPosition tp \<and> bearing tp = rawBearing tp \<and>
        lastSmoothedPosition u' = Some (rawPosition tp) \<and>
        lastBearing u' = Some (rawBearing tp) \<and> bearingHistory u' = [rawBearing tp])"
proof (intro conjI impI allI)
  show "progress (snd (stepToProgress e p s)) = p" by (rule stepToProgress_progress)
next
  assume "p = 0 \<or> p < progress s"
  then show "stepToProgress e p s =
        (case getPointAtProgress e p
                ((if \<not> distanceDataInitialized s then initializeDistanceData e s else s)
                   \<lparr>lastCameraAltitude := None, lastBearing := None,
                     bearingHistory := [], lastSmoothedPosition := None, progress := p\<rparr>) of
              (Inl err, s4) \<Rightarrow> (Some err, s4)
            | (Inr None, s4) \<Rightarrow> (None, s4)
            | (Inr (Some tp), s4) \<Rightarrow>
                  (if mapObj e = None then Some TypeError else None,
                   snd (getCameraPosition e tp s4)))"
    by (rule stepToProgress_frame)
next
  assume "p = 0 \<or> p < progress s"
  then show "stepToProgress e p s = stepToProgress e p (clearSmoothing s)"
    by (rule stepToProgress_cleared)
next
  fix a b h q
  assume "p = 0 \<or> p < progress s"
  then show "stepToProgress e p (s\<lparr>lastCameraAltitude := a, lastBearing := b,
           bearingHistory := h, lastSmoothedPosition := q\<rparr>) = stepToProgress e p s"
    by (rule stepToProgress_forgets)
next
  fix tp and s4 :: state
  assume r: "p = 0 \<or> p < progress s"
    and g: "getPointAtProgress e p
                ((if \<not> distanceDataInitialized s then initializeDistanceData e s else s)
                   \<lparr>lastCameraAltitude := None, lastBearing := None,
                     bearingHistory := [], lastSmoothedPosition := None, progress := p\<rparr>)
           = (Inr (Some tp), s4)"
  note f = stepToProgress_seeds[OF r g]
  show "position tp = rawPosition tp" using f by blast
  show "bearing tp = rawBearing tp" using f by blast
  show "lastSmoothedPosition (snd (stepToProgress e p s)) = Some (rawPosition tp)" using f by blast
  show "lastBearing (snd (stepToProgress e p s)) = Some (rawBearing tp)" using f by blast
  show "bearingHistory (snd (stepToProgress e p s)) = [rawBearing tp]" using f by blast
next
  assume "\<not> isPlaying s \<and> 2 \<le> length (trackPoints e)"
  then show "start e t1 t2 s =
        (case animate e None t2
                ((initializeDistanceData e s)
                   \<lparr>lastCameraAltitude := None, lastBearing := None,
                     bearingHistory := [], lastSmoothedPosition := None,
                     isPlaying := True, isPaused := False, progress := 0,
                     lastTimestamp := t1\<rparr>) of
              (None, s4) \<Rightarrow> (Inr [], s4)
            | (Some err, s4) \<Rightarrow> (Inl err, s4))"
    using start_runs by blast
next
  assume "\<not> isPlaying s \<and> 2 \<le> length (trackPoints e)"
  then show "start e t1 t2 s = start e t1 t2 (clearSmoothing s)"
    using start_cleared by blast
next
  fix u :: state and tp and u' :: state
  assume a: "lastBearing u = None \<and> lastSmoothedPosition u = None \<and>
        getPointAtProgress e p u = (Inr (Some tp), u')"
  note f = fresh_seeds[of u e p tp u']
  show "position tp = rawPosition tp" using a f by blast
  show "bearing tp = rawBearing tp" using a f by blast
  show "lastSmoothedPosition u' = Some (rawPosition tp)" using a f by blast
  show "lastBearing u' = Some (rawBearing tp)" using a f by blast
  show "bearingHistory u' = [rawBearing tp]" using a f by blast
qed

theorem stepToProgress_resets_witness:
  "((0::real) = 0 \<or> 0 < progress crossingState) \<and>
   progress (snd (stepToProgress (envOf shortTrack) 0 crossingState)) = 0 \<and>
   stepToProgress (envOf shortTrack) 0 crossingState =
     stepToProgress (envOf shortTrack) 0 (clearSmoothing crossingState) \<and>
   \<not> isPlaying crossingState \<and> 2 \<le> length (trackPoints (envOf shortTrack)) \<and>
   start (envOf shortTrack) 0 0 crossingState =
     start (envOf shortTrack) 0 0 (clearSmoothing crossingState) \<and>
   bearingHistory crossingState = [359] \<and>
   (\<exists>tp s4.
       getPointAtProgress (envOf shortTrack) 0
         ((if \<not> distanceDataInitialized crossingState
           then initializeDistanceData (envOf shortTrack) crossingState else crossingState)
            \<lparr>lastCameraAltitude := None, lastBearing := None,
              bearingHistory := [], lastSmoothedPosition := None, progress := 0\<rparr>)
         = (Inr (Some tp), s4) \<and>
       lastBearing (snd (stepToProgress (envOf shortTrack) 0 crossingState)) = Some (rawBearing tp) \<and>
       bearingHistory (snd (stepToProgress (envOf shortTrack) 0 crossingState)) = [rawBearing tp] \<and>
       lastSmoothedPosition (snd (stepToProgress (envOf shortTrack) 0 crossingState)) =
         Some (rawPosition tp))"
proof -
  note t = stepToProgress_resets [of "envOf shortTrack" 0 crossingState 0 0]
  let ?c = "(if \<not> distanceDataInitialized crossingState
           then initializeDistanceData (envOf shortTrack) crossingState else crossingState)
            \<lparr>lastCameraAltitude := None, lastBearing := None,
              bearingHistory := [], lastSmoothedPosition := None, progress := 0\<rparr>"
  have h: "(0::real) = 0 \<or> 0 < progress crossingState" by simp
  have n: "\<not> isPlaying crossingState" by (simp add: crossingState_def constructor_def)
  have b: "bearingHistory crossingState = [359]" by (simp add: crossingState_def)
  have ni: "\<not> distanceDataInitialized crossingState"
    by (simp add: crossingState_def constructor_def)
  obtain ds where "cumulativeDistances (initializeDistanceData (envOf shortTrack) crossingState) = Some ds"
    "length ds = length (trackPoints (envOf shortTrack))"
    using initializeDistanceData_index[OF shortTrack_long, of crossingState] by blast
  then have w: "distanceDataInitialized ?c \<longrightarrow>
      (\<exists>ds. cumulativeDistances ?c = Some ds \<and> length ds = length (trackPoints (envOf shortTrack)))"
    using ni by simp
  obtain tp s4 where g: "getPointAtProgress (envOf shortTrack) 0 ?c = (Inr (Some tp), s4)"
    using getPointAtProgress_ok[OF shortTrack_long w] by blast
  have "lastBearing (snd (stepToProgress (envOf shortTrack) 0 crossingState)) = Some (rawBearing tp) \<and>
       bearingHistory (snd (stepToProgress (envOf shortTrack) 0 crossingState)) = [rawBearing tp] \<and>
       lastSmoothedPosition (snd (stepToProgress (envOf shortTrack) 0 crossingState)) =
         Some (rawPosition tp)"
    using t h g by blast
  then show ?thesis using t h n b shortTrack_long g by blast
qed

text \<open>
  C6, as amended. A second \<open>start()\<close> while the first one has left the controller
  playing is ignored, so the state after it is the state after the first call; the same
  holds when the track is too short and both calls fail. A call that runs (controller
  not playing, at least two points) builds the distance index, sets the four smoothing
  fields to \<open>null\<close> or empty, sets the progress to \<open>0\<close>, and then computes its first frame
  on that state: its outcome does not depend on the progress, the paused flag, the clock
  reference or the smoothing state from before. Without callbacks the call returns
  normally, the progress afterwards is what the clock difference of the first frame adds
  to \<open>0\<close>, and the bearing history holds the bearing of the first frame alone.
\<close>

theorem start_twice:
  "(isPlaying (snd (start e t1 t2 s)) \<longrightarrow>
      start e' t3 t4 (snd (start e t1 t2 s)) = (Inr [], snd (start e t1 t2 s))) \<and>
   (length (trackPoints e) < 2 \<longrightarrow>
      snd (start e t3 t4 (snd (start e t1 t2 s))) = snd (start e t1 t2 s)) \<and>
   (\<not> isPlaying s \<and> 2 \<le> length (trackPoints e) \<longrightarrow>
      (\<forall>z ts x a b h q.
         start e t1 t2 (s\<lparr>isPaused := z, lastTimestamp := ts, progress := x,
           lastCameraAltitude := a, lastBearing := b, bearingHistory := h,
           lastSmoothedPosition := q\<rparr>) = start e t1 t2 s)) \<and>
   (\<not> isPlaying s \<and> 2 \<le> length (trackPoints e) \<longrightarrow>
      start e t1 t2 s =
        (case animate e None t2
                ((initializeDistanceData e s)
                   \<lparr>lastCameraAltitude := None, lastBearing := None,
                     bearingHistory := [], lastSmoothedPosition := None,
                     isPlaying := True, isPaused := False, progress := 0,
                     lastTimestamp := t1\<rparr>) of
              (None, s4) \<Rightarrow> (Inr [], s4)
            | (Some err, s4) \<Rightarrow> (Inl err, s4))) \<and>
   (\<not> isPlaying s \<and> 2 \<le> length (trackPoints e) \<and>
    onProgress e = None \<and> onFrame e = None \<and> onComplete e = None \<longrightarrow>
      fst (start e t1 t2 s) = Inr [] \<and>
      progress (snd (start e t1 t2 s)) =
        min 1 (if 0 < totalDistance (initializeDistanceData e s)
               then 160 * speed s * ((t2 - t1) / 1000) / totalDistance (initializeDistanceData e s)
               else 0) \<and>
      isPlaying (snd (start e t1 t2 s)) = (progress (snd (start e t1 t2 s)) < 1) \<and>
      \<not> isPaused (snd (start e t1 t2 s)) \<and>
      lastTimestamp (snd (start e t1 t2 s)) = t2 \<and>
      (\<exists>b. lastBearing (snd (start e t1 t2 s)) = Some b \<and>
           bearingHistory (snd (start e t1 t2 s)) = [b]) \<and>
      lastSmoothedPosition (snd (start e t1 t2 s)) \<noteq> None)"
proof (intro conjI impI)
  assume "isPlaying (snd (start e t1 t2 s))"
  then show "start e' t3 t4 (snd (start e t1 t2 s)) = (Inr [], snd (start e t1 t2 s))"
    by (rule start_ignored)
next
  assume "length (trackPoints e) < 2"
  then show "snd (start e t3 t4 (snd (start e t1 t2 s))) = snd (start e t1 t2 s)"
    by (simp add: start_short)
next
  assume "\<not> isPlaying s \<and> 2 \<le> length (trackPoints e)"
  then show "\<forall>z ts x a b h q.
         start e t1 t2 (s\<lparr>isPaused := z, lastTimestamp := ts, progress := x,
           lastCameraAltitude := a, lastBearing := b, bearingHistory := h,
           lastSmoothedPosition := q\<rparr>) = start e t1 t2 s"
    using start_forgets[of s e t1 t2] by blast
next
  assume "\<not> isPlaying s \<and> 2 \<le> length (trackPoints e)"
  then show "start e t1 t2 s =
        (case animate e None t2
                ((initializeDistanceData e s)
                   \<lparr>lastCameraAltitude := None, lastBearing := None,
                     bearingHistory := [], lastSmoothedPosition := None,
                     isPlaying := True, isPaused := False, progress := 0,
                     lastTimestamp := t1\<rparr>) of
              (None, s4) \<Rightarrow> (Inr [], s4)
            | (Some err, s4) \<Rightarrow> (Inl err, s4))"
    using start_runs by blast
next
  assume a: "\<not> isPlaying s \<and> 2 \<le> length (trackPoints e) \<and>
    onProgress e = None \<and> onFrame e = None \<and> onComplete e = None"
  then have h: "\<not> isPlaying s" "onProgress e = None" "onFrame e = None" "onComplete e = None"
    "2 \<le> length (trackPoints e)" by simp_all
  note f = start_plain_full[OF h, of t1 t2]
  show "fst (start e t1 t2 s) = Inr []" using f by blast
  show "progress (snd (start e t1 t2 s)) =
        min 1 (if 0 < totalDistance (initializeDistanceData e s)
               then 160 * speed s * ((t2 - t1) / 1000) / totalDistance (initializeDistanceData e s)
               else 0)" using f by blast
  show "isPlaying (snd (start e t1 t2 s)) = (progress (snd (start e t1 t2 s)) < 1)"
    using f by blast
  show "\<not> isPaused (snd (start e t1 t2 s))" using f by blast
  show "lastTimestamp (snd (start e t1 t2 s)) = t2" using f by blast
  show "\<exists>b. lastBearing (snd (start e t1 t2 s)) = Some b \<and>
           bearingHistory (snd (start e t1 t2 s)) = [b]" using f by blast
  show "lastSmoothedPosition (snd (start e t1 t2 s)) \<noteq> None" using f by blast
qed

theorem start_twice_witness:
  "isPlaying (snd (start (envOf shortTrack) 0 0 constructor)) \<and>
   start (envOf shortTrack) 5 5 (snd (start (envOf shortTrack) 0 0 constructor)) =
     (Inr [], snd (start (envOf shortTrack) 0 0 constructor)) \<and>
   length (trackPoints (envOf [])) < 2 \<and>
   snd (start (envOf []) 5 5 (snd (start (envOf []) 0 0 constructor))) =
     snd (start (envOf []) 0 0 constructor) \<and>
   \<not> isPlaying constructor \<and> 2 \<le> length (trackPoints (envOf shortTrack)) \<and>
   start (envOf shortTrack) 0 0 (constructor\<lparr>isPaused := True, lastTimestamp := 7, progress := 0.5,
           lastCameraAltitude := Some 900, lastBearing := Some 10, bearingHistory := [10],
           lastSmoothedPosition := None\<rparr>) = start (envOf shortTrack) 0 0 constructor \<and>
   onProgress (envOf shortTrack) = None \<and> onFrame (envOf shortTrack) = None \<and>
   onComplete (envOf shortTrack) = None \<and>
   fst (start (envOf shortTrack) 0 0 constructor) = Inr [] \<and>
   progress (snd (start (envOf shortTrack) 0 0 constructor)) = 0 \<and>
   (\<exists>b. lastBearing (snd (start (envOf shortTrack) 0 0 constructor)) = Some b \<and>
        bearingHistory (snd (start (envOf shortTrack) 0 0 constructor)) = [b])"
proof -
  have n: "\<not> isPlaying constructor" by (simp add: constructor_def)
  have pl: "isPlaying (snd (start (envOf shortTrack) 0 0 constructor))"
    using start_shortTrack[OF n, of 0 0] by simp
  have sh: "length (trackPoints (envOf [])) < 2" by (simp add: envOf_def)
  note t = start_twice [of "envOf shortTrack" 0 0 constructor "envOf shortTrack" 5 5]
  have "progress (snd (start (envOf shortTrack) 0 0 constructor)) =
        min 1 (if 0 < totalDistance (initializeDistanceData (envOf shortTrack) constructor)
               then 160 * speed constructor * ((0 - 0) / 1000) /
                    totalDistance (initializeDistanceData (envOf shortTrack) constructor)
               else 0)"
    using t n shortTrack_long envOf_callbacks[of shortTrack] by blast
  then have p0: "progress (snd (start (envOf shortTrack) 0 0 constructor)) = 0" by simp
  show ?thesis
    using pl n sh shortTrack_long envOf_callbacks[of shortTrack] p0 t
      start_twice [of "envOf []" 0 0 constructor "envOf []" 5 5]
    by blast
qed

text \<open>
  The states differ when the first call finishes the track in its first frame: a track
  of 111 m at speed 20 with clock readings 100 ms apart. The controller is then idle
  again, the second call runs, and with equal clock readings it leaves the controller
  playing at progress \<open>0\<close>.
\<close>

theorem start_twice_counterexample:
  "snd (start (envOf shortTrack) 200 200 (snd (start (envOf shortTrack) 0 100 fastState)))
     \<noteq> snd (start (envOf shortTrack) 0 100 fastState)"
proof -
  have n: "\<not> isPlaying fastState" by (simp add: fastState_def constructor_def)
  have sp: "speed fastState = 20" by (simp add: fastState_def)
  have "6371 * pi / 180 \<le> 320" using pi_less_4 by simp
  then have "1 \<le> 320 / (6371 * pi / 180)" using pi_gt_zero by (simp add: field_simps)
  then have first: "\<not> isPlaying (snd (start (envOf shortTrack) 0 100 fastState))"
    using start_shortTrack[OF n, of 0 100] sp by simp
  have "isPlaying (snd (start (envOf shortTrack) 200 200
          (snd (start (envOf shortTrack) 0 100 fastState))))"
    using start_shortTrack[OF first, of 200 200] by simp
  then show ?thesis using first by auto
qed


text \<open>
  C7, as amended. With fewer than two track points \<open>start()\<close> returns normally and
  changes nothing. When the controller is not playing it passes one message to
  \<open>console.error\<close>; when it is already playing it returns at once and logs nothing.
\<close>

theorem start_insufficient_track:
  assumes "length (trackPoints e) < 2"
  shows "start e t1 t2 s =
           (Inr (if isPlaying s then [] else [''Not enough track points for animation'']), s)"
  using assms by (rule start_short)


theorem start_insufficient_track_witness:
  "length (trackPoints (envOf [])) < 2 \<and>
   start (envOf []) 0 0 constructor =
     (Inr [''Not enough track points for animation''], constructor)"
proof -
  have h: "length (trackPoints (envOf [])) < 2" by (simp add: envOf_def)
  have "\<not> isPlaying constructor" by (simp add: constructor_def)
  then show ?thesis using h start_insufficient_track [OF h, of 0 0 constructor] by simp
qed


text \<open>Already playing, empty track: nothing is reported.\<close>

theorem start_insufficient_track_counterexample:
  "length (trackPoints (envOf [])) < 2 \<and> start (envOf []) 0 0 playingState = (Inr [], playingState)"
proof -
  have "isPlaying playingState" by (simp add: playingState_def)
  then have "start (envOf []) 0 0 playingState = (Inr [], playingState)" by (rule start_ignored)
  then show ?thesis by (simp add: envOf_def)
qed

end
